theory Spec2Isabelle
  imports Complex_Main "HOL-Library.Word"
begin

section \<open>Floating-point values\<close>

text \<open>
  The source computes with \<open>float\<close> and, in the calls of \<open>pow\<close>, \<open>sqrt\<close> and
  \<open>log\<close>, with \<open>double\<close>. A value is a real number or one of the three special values
  of IEEE arithmetic. An operation of the source is the exact operation on these values,
  defined first, followed by the rounding of a finite result to the type of the operation,
  which can overflow to an infinity. The sign of zero is not modelled: every divisor of the
  source that can be zero (a square root of a sum of squares, a doubled square, a count) is
  a positive zero.
\<close>

datatype flt = Fin real | PInf | NInf | NaN

fun fneg :: "flt \<Rightarrow> flt" where
  "fneg (Fin a) = Fin (- a)"
| "fneg PInf = NInf"
| "fneg NInf = PInf"
| "fneg NaN = NaN"

fun fadd :: "flt \<Rightarrow> flt \<Rightarrow> flt" where
  "fadd (Fin a) (Fin b) = Fin (a + b)"
| "fadd NaN y = NaN"
| "fadd x NaN = NaN"
| "fadd PInf NInf = NaN"
| "fadd NInf PInf = NaN"
| "fadd PInf y = PInf"
| "fadd x PInf = PInf"
| "fadd NInf y = NInf"
| "fadd x NInf = NInf"

definition fsub :: "flt \<Rightarrow> flt \<Rightarrow> flt" where
  "fsub x y = fadd x (fneg y)"

fun fmul :: "flt \<Rightarrow> flt \<Rightarrow> flt" where
  "fmul (Fin a) (Fin b) = Fin (a * b)"
| "fmul NaN y = NaN"
| "fmul x NaN = NaN"
| "fmul (Fin a) PInf = (if a = 0 then NaN else if 0 < a then PInf else NInf)"
| "fmul (Fin a) NInf = (if a = 0 then NaN else if 0 < a then NInf else PInf)"
| "fmul PInf (Fin b) = (if b = 0 then NaN else if 0 < b then PInf else NInf)"
| "fmul NInf (Fin b) = (if b = 0 then NaN else if 0 < b then NInf else PInf)"
| "fmul PInf PInf = PInf"
| "fmul PInf NInf = NInf"
| "fmul NInf PInf = NInf"
| "fmul NInf NInf = PInf"

fun fdiv :: "flt \<Rightarrow> flt \<Rightarrow> flt" where
  "fdiv (Fin a) (Fin b) =
     (if b = 0 then (if a = 0 then NaN else if 0 < a then PInf else NInf)
      else Fin (a / b))"
| "fdiv NaN y = NaN"
| "fdiv x NaN = NaN"
| "fdiv (Fin a) PInf = Fin 0"
| "fdiv (Fin a) NInf = Fin 0"
| "fdiv PInf (Fin b) = (if 0 \<le> b then PInf else NInf)"
| "fdiv NInf (Fin b) = (if 0 \<le> b then NInf else PInf)"
| "fdiv PInf PInf = NaN"
| "fdiv PInf NInf = NaN"
| "fdiv NInf PInf = NaN"
| "fdiv NInf NInf = NaN"

text \<open>The square, for \<open>pow(x, 2)\<close>.\<close>

definition fpow2 :: "flt \<Rightarrow> flt" where
  "fpow2 x = fmul x x"

fun fsqrt :: "flt \<Rightarrow> flt" where
  "fsqrt (Fin a) = (if 0 \<le> a then Fin (sqrt a) else NaN)"
| "fsqrt PInf = PInf"
| "fsqrt NInf = NaN"
| "fsqrt NaN = NaN"

fun flog :: "flt \<Rightarrow> flt" where
  "flog (Fin a) = (if 0 < a then Fin (ln a) else if a = 0 then NInf else NaN)"
| "flog PInf = PInf"
| "flog NInf = NaN"
| "flog NaN = NaN"

text \<open>The comparison \<open>==\<close>: NaN equals nothing, itself included.\<close>

fun feq :: "flt \<Rightarrow> flt \<Rightarrow> bool" where
  "feq (Fin a) (Fin b) = (a = b)"
| "feq PInf PInf = True"
| "feq NInf NInf = True"
| "feq x y = False"

text \<open>The comparison \<open><=\<close>: false when an operand is NaN.\<close>

fun fle :: "flt \<Rightarrow> flt \<Rightarrow> bool" where
  "fle (Fin a) (Fin b) = (a \<le> b)"
| "fle NaN y = False"
| "fle x NaN = False"
| "fle NInf y = True"
| "fle x PInf = True"
| "fle x y = False"

section \<open>Rounding\<close>

text \<open>
  The arithmetic of the machine is an argument of every function that computes: \<open>rf\<close>
  rounds an exact finite result to \<open>float\<close>, \<open>rd\<close> to \<open>double\<close>. An infinity or a
  NaN is not rounded. Each operation of the source is rounded once, to the type that the
  rules of the language give it: a product is rounded before it is added to, and no wider
  format holds an intermediate result.
\<close>

record arith =
  rf :: "real \<Rightarrow> flt"
  rd :: "real \<Rightarrow> flt"

definition round_to :: "(real \<Rightarrow> flt) \<Rightarrow> flt \<Rightarrow> flt" where
  "round_to r x = (case x of Fin a \<Rightarrow> r a | PInf \<Rightarrow> PInf | NInf \<Rightarrow> NInf | NaN \<Rightarrow> NaN)"

text \<open>The operations on two \<open>float\<close> operands.\<close>

definition addf :: "'a arith_scheme \<Rightarrow> flt \<Rightarrow> flt \<Rightarrow> flt" where
  "addf A x y = round_to (rf A) (fadd x y)"

definition subf :: "'a arith_scheme \<Rightarrow> flt \<Rightarrow> flt \<Rightarrow> flt" where
  "subf A x y = round_to (rf A) (fsub x y)"

definition mulf :: "'a arith_scheme \<Rightarrow> flt \<Rightarrow> flt \<Rightarrow> flt" where
  "mulf A x y = round_to (rf A) (fmul x y)"

definition divf :: "'a arith_scheme \<Rightarrow> flt \<Rightarrow> flt \<Rightarrow> flt" where
  "divf A x y = round_to (rf A) (fdiv x y)"

text \<open>
  The operations with a \<open>double\<close> operand, the other operand converted to \<open>double\<close>,
  which changes no value.
\<close>

definition addd :: "'a arith_scheme \<Rightarrow> flt \<Rightarrow> flt \<Rightarrow> flt" where
  "addd A x y = round_to (rd A) (fadd x y)"

definition subd :: "'a arith_scheme \<Rightarrow> flt \<Rightarrow> flt \<Rightarrow> flt" where
  "subd A x y = round_to (rd A) (fsub x y)"

definition muld :: "'a arith_scheme \<Rightarrow> flt \<Rightarrow> flt \<Rightarrow> flt" where
  "muld A x y = round_to (rd A) (fmul x y)"

definition divd :: "'a arith_scheme \<Rightarrow> flt \<Rightarrow> flt \<Rightarrow> flt" where
  "divd A x y = round_to (rd A) (fdiv x y)"

text \<open>
  \<open>pow(x, 2)\<close>, \<open>sqrt(x)\<close> and \<open>log(x)\<close>: the unqualified names are the functions of
  the C library, which take and return \<open>double\<close>; each is taken to round its exact result.
\<close>

definition powd :: "'a arith_scheme \<Rightarrow> flt \<Rightarrow> flt" where
  "powd A x = round_to (rd A) (fpow2 x)"

definition sqrtd :: "'a arith_scheme \<Rightarrow> flt \<Rightarrow> flt" where
  "sqrtd A x = round_to (rd A) (fsqrt x)"

definition logd :: "'a arith_scheme \<Rightarrow> flt \<Rightarrow> flt" where
  "logd A x = round_to (rd A) (flog x)"

text \<open>The conversion of a \<open>double\<close> to \<open>float\<close>, at an assignment or a return.\<close>

definition to_float :: "'a arith_scheme \<Rightarrow> flt \<Rightarrow> flt" where
  "to_float A x = round_to (rf A) x"

text \<open>
  Rounding to nearest, ties to even, as IEEE 754 defines it for a binary format with \<open>p\<close>
  bits of precision and the largest exponent \<open>emax\<close>: \<open>rhe\<close> rounds to an integer,
  \<open>rne_pos\<close> a positive real to a multiple of the unit in its last place, or to infinity
  when that multiple is \<open>2 ^ (emax + 1)\<close> or more.
\<close>

definition rhe :: "real \<Rightarrow> int" where
  "rhe q = (let f = \<lfloor>q\<rfloor>; r = q - of_int f
            in if r < 1 / 2 then f else if 1 / 2 < r then f + 1
               else if even f then f else f + 1)"

definition rne_pos :: "nat \<Rightarrow> int \<Rightarrow> real \<Rightarrow> flt" where
  "rne_pos p emax x =
     (let k = max \<lfloor>log 2 x\<rfloor> (1 - emax);
          u = 2 powi (k - (int p - 1));
          r = of_int (rhe (x / u)) * u
      in if 2 powi (emax + 1) \<le> r then PInf else Fin r)"

definition rne :: "nat \<Rightarrow> int \<Rightarrow> real \<Rightarrow> flt" where
  "rne p emax x =
     (if x = 0 then Fin 0 else if 0 < x then rne_pos p emax x else fneg (rne_pos p emax (- x)))"

text \<open>
  The arithmetic of the source: \<open>float\<close> is binary32 and \<open>double\<close> is binary64. And the
  arithmetic that does not round, for statements about exact real arithmetic.
\<close>

definition ieee :: arith where
  "ieee = \<lparr>rf = rne 24 127, rd = rne 53 1023\<rparr>"

definition exact :: arith where
  "exact = \<lparr>rf = Fin, rd = Fin\<rparr>"

text \<open>What the theorems on order need of a rounding: it keeps the order and the sign.\<close>

definition monotone_rounding :: "(real \<Rightarrow> flt) \<Rightarrow> bool" where
  "monotone_rounding r \<longleftrightarrow> (\<forall>x y. x \<le> y \<longrightarrow> fle (r x) (r y)) \<and> (\<forall>x. r (- x) = fneg (r x))"

section \<open>The table and its consumers\<close>

text \<open>\<open>struct NormParams { float shift, scale; }\<close>\<close>

record NormParams =
  shift :: flt
  scale :: flt

text \<open>
  \<open>Event\<close> is declared outside this file; the code reads and writes its field
  \<open>mean\<close> only. The other fields live in the extension of the record.
\<close>

record Event =
  mean :: flt

text \<open>
  The fields of \<open>class PoreModel\<close>. A name of the source ends in an underscore, which
  a constant cannot; the underscore is dropped, or replaced by \<open>_fld\<close> where the
  bare name is taken.
\<close>

record PoreModel =
  lv_means :: "flt list"
  lv_vars_x2 :: "flt list"
  lognorm_denoms :: "flt list"
  lambda_fld :: flt
  model_mean :: flt
  model_stdv :: flt
  k_fld :: "8 word"
  kmer_count_fld :: "16 word"
  loaded :: bool
  complement_fld :: bool
  rev_comp_ids :: "16 word list"

definition is_loaded :: "PoreModel \<Rightarrow> bool" where
  "is_loaded m = loaded m"

definition kmer_len :: "PoreModel \<Rightarrow> 8 word" where
  "kmer_len m = k_fld m"

text \<open>
  \<open>event_match_prob(float e, u16 k_id)\<close>:
  \<open>(-pow(e - lv_means_[k_id], 2) / lv_vars_x2_[k_id]) - lognorm_denoms_[k_id]\<close>. The
  difference is a \<open>float\<close>, \<open>pow\<close> makes the rest \<open>double\<close>, and the return converts
  to \<open>float\<close>. The three vectors are indexed without a check; an index past the end of
  one of them is undefined behaviour, here \<open>None\<close>.
\<close>

definition event_match_prob ::
  "'a arith_scheme \<Rightarrow> PoreModel \<Rightarrow> flt \<Rightarrow> 16 word \<Rightarrow> flt option" where
  "event_match_prob A m e k_id =
     (if unat k_id < length (lv_means m) \<and> unat k_id < length (lv_vars_x2 m)
         \<and> unat k_id < length (lognorm_denoms m)
      then Some (to_float A
                   (subd A (divd A (fneg (powd A (subf A e (lv_means m ! unat k_id))))
                                   (lv_vars_x2 m ! unat k_id))
                           (lognorm_denoms m ! unat k_id)))
      else None)"

text \<open>\<open>event_match_prob(const Event &e, u16 k_id)\<close>\<close>

definition event_match_prob_ev ::
  "'a arith_scheme \<Rightarrow> PoreModel \<Rightarrow> 'b Event_scheme \<Rightarrow> 16 word \<Rightarrow> flt option" where
  "event_match_prob_ev A m e k_id = event_match_prob A m (mean e) k_id"

text \<open>
  \<open>get_norm_params(const std::vector<Event> &events)\<close>. The sum of the means is
  accumulated in \<open>float\<close>; the sum of the squares adds a \<open>double\<close> to a \<open>float\<close>
  variable, which converts the sum back to \<open>float\<close> each time; the size of the vector is
  converted to \<open>float\<close>.
\<close>

definition get_norm_params_ev ::
  "'a arith_scheme \<Rightarrow> PoreModel \<Rightarrow> 'b Event_scheme list \<Rightarrow> NormParams" where
  "get_norm_params_ev A m events =
     (let events_mean = divf A (foldl (\<lambda>acc e. addf A acc (mean e)) (Fin 0) events)
                               (rf A (real (length events)));
          events_stdv =
            to_float A (sqrtd A
              (divf A (foldl (\<lambda>acc e. to_float A (addd A acc (powd A (subf A (mean e) events_mean))))
                             (Fin 0) events)
                      (rf A (real (length events)))));
          sc = divf A (model_stdv m) events_stdv
      in \<lparr>shift = subf A (model_mean m) (mulf A sc events_mean), scale = sc\<rparr>)"

text \<open>\<open>get_norm_params(const std::vector<float> &events)\<close>\<close>

definition get_norm_params :: "'a arith_scheme \<Rightarrow> PoreModel \<Rightarrow> flt list \<Rightarrow> NormParams" where
  "get_norm_params A m events =
     (let events_mean = divf A (foldl (\<lambda>acc e. addf A acc e) (Fin 0) events)
                               (rf A (real (length events)));
          events_stdv =
            to_float A (sqrtd A
              (divf A (foldl (\<lambda>acc e. to_float A (addd A acc (powd A (subf A e events_mean))))
                             (Fin 0) events)
                      (rf A (real (length events)))));
          sc = divf A (model_stdv m) events_stdv
      in \<lparr>shift = subf A (model_mean m) (mulf A sc events_mean), scale = sc\<rparr>)"

text \<open>
  \<open>normalize(std::vector<Event> &events, NormParams norm={0,0})\<close>: the vector is
  changed in place; the model returns the new vector.
\<close>

definition normalize_ev ::
  "'a arith_scheme \<Rightarrow> PoreModel \<Rightarrow> 'b Event_scheme list \<Rightarrow> NormParams \<Rightarrow> 'b Event_scheme list" where
  "normalize_ev A m events nrm =
     (let nrm' = (if feq (scale nrm) (Fin 0) then get_norm_params_ev A m events else nrm)
      in map (\<lambda>e. e\<lparr>mean := addf A (mulf A (scale nrm') (mean e)) (shift nrm')\<rparr>) events)"

text \<open>\<open>normalize(std::vector<float> &events, NormParams norm={0,0})\<close>\<close>

definition normalize :: "'a arith_scheme \<Rightarrow> PoreModel \<Rightarrow> flt list \<Rightarrow> NormParams \<Rightarrow> flt list" where
  "normalize A m events nrm =
     (let nrm' = (if feq (scale nrm) (Fin 0) then get_norm_params A m events else nrm)
      in map (\<lambda>e. addf A (mulf A (scale nrm') e) (shift nrm')) events)"

text \<open>The default argument \<open>{0,0}\<close>.\<close>

definition norm_default :: NormParams where
  "norm_default = \<lparr>shift = Fin 0, scale = Fin 0\<rparr>"

section \<open>The input stream\<close>

text \<open>
  \<open>std::ifstream\<close>, as far as the constructor uses it: the characters not yet read and
  the two state bits that the reads set. A stream is good when neither bit is set; no read
  of the constructor clears a bit.
\<close>

record istream =
  buf :: string
  eofbit :: bool
  failbit :: bool

text \<open>
  \<open>std::ifstream model_in(model_fname)\<close>. The file system is the argument: the contents
  of the file, or \<open>None\<close> for a path that cannot be opened, which sets \<open>failbit\<close>.
\<close>

definition ifstream_open :: "string option \<Rightarrow> istream" where
  "ifstream_open file =
     (case file of
        None \<Rightarrow> \<lparr>buf = [], eofbit = False, failbit = True\<rparr>
      | Some contents \<Rightarrow> \<lparr>buf = contents, eofbit = False, failbit = False\<rparr>)"

text \<open>\<open>std::isspace\<close> in the classic locale.\<close>

definition is_space :: "char \<Rightarrow> bool" where
  "is_space c = (c = CHR '' '' \<or> c = CHR 0x09 \<or> c = CHR 0x0A \<or> c = CHR 0x0B
                 \<or> c = CHR 0x0C \<or> c = CHR 0x0D)"

text \<open>
  \<open>std::getline(model_in, header)\<close>: on a stream that is not good it sets \<open>failbit\<close> and
  leaves the string; otherwise it takes the characters up to the first newline, which it
  drops, or up to the end of the input, where it sets \<open>eofbit\<close>, and \<open>failbit\<close> too when
  it took nothing.
\<close>

definition getline :: "istream \<Rightarrow> string \<Rightarrow> istream \<times> string" where
  "getline s cur =
     (if eofbit s \<or> failbit s then (s\<lparr>failbit := True\<rparr>, cur)
      else let l = takeWhile (\<lambda>c. c \<noteq> CHR 0x0A) (buf s);
               r = dropWhile (\<lambda>c. c \<noteq> CHR 0x0A) (buf s)
           in if r = [] then (s\<lparr>buf := [], eofbit := True, failbit := (l = [])\<rparr>, l)
              else (s\<lparr>buf := tl r\<rparr>, l))"

text \<open>
  The sentry of a formatted read: on a stream that is not good it sets \<open>failbit\<close>;
  otherwise it skips white space, and sets both bits when the input ends there.
\<close>

definition sentry :: "istream \<Rightarrow> istream \<times> bool" where
  "sentry s =
     (if eofbit s \<or> failbit s then (s\<lparr>failbit := True\<rparr>, False)
      else let b = dropWhile is_space (buf s)
           in if b = [] then (s\<lparr>buf := [], eofbit := True, failbit := True\<rparr>, False)
              else (s\<lparr>buf := b\<rparr>, True))"

text \<open>
  \<open>model_in >> kmer_str\<close>: the string is left as it is when the sentry fails; otherwise
  it becomes the characters up to the next white space, and \<open>eofbit\<close> is set when the input
  ends first.
\<close>

definition get_string :: "istream \<Rightarrow> string \<Rightarrow> istream \<times> string" where
  "get_string s cur =
     (case sentry s of
        (s', ok) \<Rightarrow>
          if \<not> ok then (s', cur)
          else let w = takeWhile (\<lambda>c. \<not> is_space c) (buf s');
                   r = dropWhile (\<lambda>c. \<not> is_space c) (buf s')
               in (s'\<lparr>buf := r, eofbit := (r = [])\<rparr>, w))"

text \<open>
  \<open>model_in >> lv_mean\<close>. The conversion is the library's \<open>num_get\<close>, an argument here:
  from the input it gives the value it stores, whether it succeeded, and the input it
  leaves. The variable is left as it is when the sentry fails; \<open>eofbit\<close> is set when the
  conversion read to the end of the input, \<open>failbit\<close> when it did not succeed.
\<close>

definition get_float ::
  "(string \<Rightarrow> real \<times> bool \<times> string) \<Rightarrow> istream \<Rightarrow> flt \<Rightarrow> istream \<times> flt" where
  "get_float ng s cur =
     (case sentry s of
        (s', ok) \<Rightarrow>
          if \<not> ok then (s', cur)
          else (case ng (buf s') of
                  (v, good, r) \<Rightarrow> (s'\<lparr>buf := r, eofbit := (r = []), failbit := \<not> good\<rparr>, Fin v)))"

section \<open>The constructor from a file\<close>

text \<open>
  What the constructor takes from outside this file: the arithmetic, the template
  argument, the functions of the k-mer codec (\<open>kmer_count<KLEN>()\<close>,
  \<open>str_to_kmer<KLEN>\<close>, \<open>kmer_comp<KLEN>\<close>) and the number conversion of the stream
  library.
\<close>

record env = arith +
  KLEN :: nat
  kmer_count :: "16 word"
  str_to_kmer :: "string \<Rightarrow> 16 word"
  kmer_comp :: "16 word \<Rightarrow> 16 word"
  num_get :: "string \<Rightarrow> real \<times> bool \<times> string"

text \<open>The local variables that a row is read into.\<close>

record row_vars =
  kmer_str :: string
  lv_mean :: flt
  lv_stdv :: flt
  sd_mean :: flt
  sd_stdv :: flt
  lambda :: flt
  weight :: flt

text \<open>
  The header loop. Its index is a \<open>u8\<close>: on a header of 256 characters or more the index
  wraps around before it reaches the size, and the loop does not end.
\<close>

partial_function (option) count_cols ::
  "string \<Rightarrow> 8 word \<Rightarrow> bool \<Rightarrow> 8 word \<Rightarrow> 8 word option" where
  "count_cols header i prev_ws num_cols =
     (if unat i < length header then
        (if header ! unat i = CHR '' '' \<or> header ! unat i = CHR 0x09
         then count_cols header (i + 1) True num_cols
         else count_cols header (i + 1) False (if prev_ws then num_cols + 1 else num_cols))
      else Some num_cols)"

text \<open>
  One row, read by the layout that the number of header columns selects, each \<open>>>\<close> in
  turn on the stream the one before left. The result is the stream, the local variables
  and the value assigned to the member \<open>lambda_\<close>.
\<close>

definition read_row ::
  "env \<Rightarrow> bool \<Rightarrow> 8 word \<Rightarrow> istream \<times> row_vars \<Rightarrow> istream \<times> row_vars \<times> flt" where
  "read_row E has_lambda num_cols sr =
     (case sr of (s, r) \<Rightarrow>
      if has_lambda then
        (case get_string s (kmer_str r) of (s1, ks) \<Rightarrow>
         case get_float (num_get E) s1 (lv_mean r) of (s2, lm) \<Rightarrow>
         case get_float (num_get E) s2 (lv_stdv r) of (s3, ls) \<Rightarrow>
         case get_float (num_get E) s3 (sd_mean r) of (s4, sm) \<Rightarrow>
         case get_float (num_get E) s4 (sd_stdv r) of (s5, ss) \<Rightarrow>
         case get_float (num_get E) s5 (lambda r) of (s6, la) \<Rightarrow>
         case get_float (num_get E) s6 (weight r) of (s7, we) \<Rightarrow>
           (s7, r\<lparr>kmer_str := ks, lv_mean := lm, lv_stdv := ls, sd_mean := sm,
                   sd_stdv := ss, lambda := la, weight := we\<rparr>, la))
      else if num_cols = 3 then
        (case get_string s (kmer_str r) of (s1, ks) \<Rightarrow>
         case get_float (num_get E) s1 (lv_mean r) of (s2, lm) \<Rightarrow>
         case get_float (num_get E) s2 (lv_stdv r) of (s3, ls) \<Rightarrow>
           (s3, r\<lparr>kmer_str := ks, lv_mean := lm, lv_stdv := ls\<rparr>, Fin (- 1)))
      else if num_cols = 4 then
        (case get_string s (kmer_str r) of (s1, ks) \<Rightarrow>
         case get_float (num_get E) s1 (lv_mean r) of (s2, lm) \<Rightarrow>
         case get_float (num_get E) s2 (lv_stdv r) of (s3, ls) \<Rightarrow>
         case get_float (num_get E) s3 (sd_mean r) of (s4, sm) \<Rightarrow>
           (s4, r\<lparr>kmer_str := ks, lv_mean := lm, lv_stdv := ls, sd_mean := sm\<rparr>, Fin (- 1)))
      else
        (case get_string s (kmer_str r) of (s1, ks) \<Rightarrow>
         case get_float (num_get E) s1 (lv_mean r) of (s2, lm) \<Rightarrow>
         case get_float (num_get E) s2 (lv_stdv r) of (s3, ls) \<Rightarrow>
         case get_float (num_get E) s3 (sd_mean r) of (s4, sm) \<Rightarrow>
         case get_float (num_get E) s4 (sd_stdv r) of (s5, ss) \<Rightarrow>
         case get_float (num_get E) s5 (weight r) of (s6, we) \<Rightarrow>
           (s6, r\<lparr>kmer_str := ks, lv_mean := lm, lv_stdv := ls, sd_mean := sm,
                   sd_stdv := ss, weight := we\<rparr>, Fin (- 1))))"

text \<open>
  The state of the read loop: the stream, the local variables, the object under
  construction and what was written to \<open>std::cerr\<close>, one identifier for each message
  \<open>Error: kmer '...' is invalid\<close>. The field \<open>stored\<close> is not in the source: it records
  the identifier and the level mean of each row that the loop stored, in that order, for the
  theorems to speak of.
\<close>

record loader =
  model_in :: istream
  row :: row_vars
  tbl :: PoreModel
  cerr :: "16 word list"
  stored :: "(16 word \<times> flt) list"

text \<open>The identifier of the row in the local variables, complemented if asked for.\<close>

definition row_kmer :: "env \<Rightarrow> bool \<Rightarrow> loader \<Rightarrow> 16 word" where
  "row_kmer E complement L =
     (if complement then kmer_comp E (str_to_kmer E (kmer_str (row L)))
      else str_to_kmer E (kmer_str (row L)))"

text \<open>
  The first half of the loop body: the check of the identifier, then the message or the
  store. Both operands of the check are \<open>u16\<close>, compared as integers. The products of
  \<open>2*lv_stdv*lv_stdv\<close> are \<open>float\<close>; \<open>M_PI\<close> is the \<open>double\<close> nearest to pi and makes
  \<open>log(sqrt(M_PI * ...))\<close> a \<open>double\<close>, converted to \<open>float\<close> by the assignment.
\<close>

definition store_row :: "env \<Rightarrow> bool \<Rightarrow> loader \<Rightarrow> loader" where
  "store_row E complement L =
     (let kmer = row_kmer E complement L; m = tbl L
      in if uint kmer < 0 \<or> uint (kmer_count_fld m) \<le> uint kmer
         then L\<lparr>cerr := cerr L @ [kmer]\<rparr>
         else let var2 = mulf E (mulf E (Fin 2) (lv_stdv (row L))) (lv_stdv (row L))
              in L\<lparr>tbl := m\<lparr>lv_means := (lv_means m)[unat kmer := lv_mean (row L)],
                              lv_vars_x2 := (lv_vars_x2 m)[unat kmer := var2],
                              lognorm_denoms :=
                                (lognorm_denoms m)
                                [unat kmer := to_float E (logd E (sqrtd E (muld E (rd E pi) var2)))],
                              model_mean := addf E (model_mean m) (lv_mean (row L))\<rparr>,
                    stored := stored L @ [(kmer, lv_mean (row L))]\<rparr>)"

text \<open>The second half of the loop body: the next row.\<close>

definition read_next :: "env \<Rightarrow> bool \<Rightarrow> 8 word \<Rightarrow> loader \<Rightarrow> loader" where
  "read_next E has_lambda num_cols L =
     (case read_row E has_lambda num_cols (model_in L, row L) of
        (s, r, la) \<Rightarrow> L\<lparr>model_in := s, row := r, tbl := (tbl L)\<lparr>lambda_fld := la\<rparr>\<rparr>)"

text \<open>\<open>do { ... } while (!model_in.eof())\<close>; \<open>None\<close> when the loop does not end.\<close>

partial_function (option) read_loop ::
  "env \<Rightarrow> bool \<Rightarrow> bool \<Rightarrow> 8 word \<Rightarrow> loader \<Rightarrow> loader option" where
  "read_loop E complement has_lambda num_cols L =
     (if eofbit (model_in (read_next E has_lambda num_cols (store_row E complement L)))
      then Some (read_next E has_lambda num_cols (store_row E complement L))
      else read_loop E complement has_lambda num_cols
             (read_next E has_lambda num_cols (store_row E complement L)))"

text \<open>
  The last statements of the constructor: the two aggregates and the flag. The count is a
  \<open>u16\<close>, which converts to \<open>float\<close> without rounding; the sum of the squares adds a
  \<open>double\<close> to a \<open>float\<close> variable.
\<close>

definition finish :: "'a arith_scheme \<Rightarrow> PoreModel \<Rightarrow> PoreModel" where
  "finish A m =
     (let kc = Fin (real (unat (kmer_count_fld m)));
          mm = divf A (model_mean m) kc;
          sq = foldl (\<lambda>acc kmer. to_float A (addd A acc (powd A (subf A (lv_means m ! kmer) mm))))
                     (Fin 0) [0 ..< unat (kmer_count_fld m)]
      in m\<lparr>model_mean := mm, model_stdv := to_float A (sqrtd A (divf A sq kc)),
           loaded := True\<rparr>)"

text \<open>
  The statements between the first read and the loop: the vectors are resized, which fills
  them with zeros, their last entry is set to \<open>-1\<close>, and the running sum starts at zero.
  The scalar members hold whatever their storage held until they are assigned: \<open>this0\<close>
  is that content; \<open>la\<close> is the value that the first read left in \<open>lambda_\<close>.
\<close>

definition init_tbl :: "env \<Rightarrow> PoreModel \<Rightarrow> flt \<Rightarrow> PoreModel" where
  "init_tbl E this0 la =
     (let n = unat (kmer_count E)
      in this0\<lparr>kmer_count_fld := kmer_count E, lambda_fld := la,
               lv_means := (replicate (n + 1) (Fin 0))[n := Fin (- 1)],
               lv_vars_x2 := (replicate (n + 1) (Fin 0))[n := Fin (- 1)],
               lognorm_denoms := (replicate (n + 1) (Fin 0))[n := Fin (- 1)],
               model_mean := Fin 0,
               rev_comp_ids := replicate n 0\<rparr>)"

text \<open>
  \<open>PoreModel(std::string model_fname, bool complement)\<close>, up to the end of the read
  loop. The local floats are not initialised: \<open>locals0\<close> is what their storage held; the
  local string starts empty. The result is \<open>None\<close> when a loop does not end.
\<close>

definition ctor_loop ::
  "env \<Rightarrow> PoreModel \<Rightarrow> row_vars \<Rightarrow> string option \<Rightarrow> bool \<Rightarrow> loader option" where
  "ctor_loop E this0 locals0 file complement =
     (case getline (ifstream_open file) [] of
        (s1, header) \<Rightarrow>
          (case count_cols header 0 True 0 of
             None \<Rightarrow> None
           | Some num_cols \<Rightarrow>
               (case read_row E (7 \<le> num_cols) num_cols (s1, locals0\<lparr>kmer_str := []\<rparr>) of
                  (s2, r, la) \<Rightarrow>
                    read_loop E complement (7 \<le> num_cols) num_cols
                      \<lparr>model_in = s2, row = r, tbl = init_tbl E this0 la,
                       cerr = [], stored = []\<rparr>)))"

text \<open>
  The whole constructor: the object and what was written to \<open>std::cerr\<close>, or \<open>None\<close>
  when the constructor does not return.
\<close>

definition PoreModel_ctor ::
  "env \<Rightarrow> PoreModel \<Rightarrow> row_vars \<Rightarrow> string option \<Rightarrow> bool \<Rightarrow> (PoreModel \<times> 16 word list) option" where
  "PoreModel_ctor E this0 locals0 file complement =
     (case ctor_loop E this0 locals0 file complement of
        None \<Rightarrow> None
      | Some L \<Rightarrow> Some (finish E (tbl L), cerr L))"

text \<open>\<open>PoreModel()\<close>: the two members it initialises.\<close>

definition PoreModel_default :: "PoreModel \<Rightarrow> PoreModel" where
  "PoreModel_default this0 =
     this0\<lparr>k_fld := 0, loaded := False, lv_means := [], lv_vars_x2 := [],
            lognorm_denoms := [], rev_comp_ids := []\<rparr>"

text \<open>
  An instance of what is outside this file, for evaluating the theorems at a concrete
  input: the codec for k-mers of length one over \<open>A\<close>, \<open>C\<close>, \<open>G\<close>, \<open>T\<close>, any other
  character mapped to 4, a number conversion that reads unsigned decimal integers, and the
  arithmetic that does not round.
\<close>

definition is_digit :: "char \<Rightarrow> bool" where
  "is_digit c = (48 \<le> (of_char c :: nat) \<and> (of_char c :: nat) \<le> 57)"

definition demo_num_get :: "string \<Rightarrow> real \<times> bool \<times> string" where
  "demo_num_get s =
     (real (foldl (\<lambda>a c. 10 * a + (of_char c - 48)) 0 (takeWhile is_digit s)),
      takeWhile is_digit s \<noteq> [], dropWhile is_digit s)"

definition demo_str_to_kmer :: "string \<Rightarrow> 16 word" where
  "demo_str_to_kmer s =
     (if s = ''A'' then 0 else if s = ''C'' then 1 else if s = ''G'' then 2
      else if s = ''T'' then 3 else 4)"

definition demo_env :: env where
  "demo_env = \<lparr>rf = Fin, rd = Fin, KLEN = 1, kmer_count = 4, str_to_kmer = demo_str_to_kmer,
                kmer_comp = (\<lambda>k. 3 - k), num_get = demo_num_get\<rparr>"

text \<open>
  A model file of three columns: a header, then the rows \<open>A 90 1\<close>, \<open>N 70 3\<close> and
  \<open>C 95 2\<close>, each ended by a newline.
\<close>

definition demo_file :: string where
  "demo_file = ''kmer mean stdv'' @ [CHR 0x0A] @ ''A 90 1'' @ [CHR 0x0A]
               @ ''N 70 3'' @ [CHR 0x0A] @ ''C 95 2'' @ [CHR 0x0A]"

text \<open>Storage contents before the constructor runs.\<close>

definition demo_this :: PoreModel where
  "demo_this = \<lparr>lv_means = [], lv_vars_x2 = [], lognorm_denoms = [],
                 lambda_fld = Fin 0, model_mean = Fin 0, model_stdv = Fin 0,
                 k_fld = 0, kmer_count_fld = 0, loaded = False, complement_fld = False,
                 rev_comp_ids = []\<rparr>"

definition demo_locals :: row_vars where
  "demo_locals = \<lparr>kmer_str = [], lv_mean = Fin 0, lv_stdv = Fin 0, sd_mean = Fin 0,
                   sd_stdv = Fin 0, lambda = Fin 0, weight = Fin 0\<rparr>"

text \<open>
  The states of the read loop on \<open>demo_file\<close>: before each of the three rows is
  processed, and after the loop.
\<close>

definition demo_row :: "string \<Rightarrow> real \<Rightarrow> real \<Rightarrow> row_vars" where
  "demo_row ks a b = demo_locals\<lparr>kmer_str := ks, lv_mean := Fin a, lv_stdv := Fin b\<rparr>"

definition demo_tbl0 :: PoreModel where
  "demo_tbl0 = demo_this\<lparr>kmer_count_fld := 4, lambda_fld := Fin (- 1),
                 lv_means := [Fin 0, Fin 0, Fin 0, Fin 0, Fin (- 1)],
                 lv_vars_x2 := [Fin 0, Fin 0, Fin 0, Fin 0, Fin (- 1)],
                 lognorm_denoms := [Fin 0, Fin 0, Fin 0, Fin 0, Fin (- 1)],
                 rev_comp_ids := [0, 0, 0, 0]\<rparr>"

definition demo_tbl1 :: PoreModel where
  "demo_tbl1 = demo_tbl0\<lparr>lv_means := [Fin 90, Fin 0, Fin 0, Fin 0, Fin (- 1)],
                 lv_vars_x2 := [Fin 2, Fin 0, Fin 0, Fin 0, Fin (- 1)],
                 lognorm_denoms := [Fin (ln (sqrt (pi * 2))), Fin 0, Fin 0, Fin 0, Fin (- 1)],
                 model_mean := Fin 90\<rparr>"

definition demo_tbl2 :: PoreModel where
  "demo_tbl2 = demo_tbl0\<lparr>lv_means := [Fin 90, Fin 95, Fin 0, Fin 0, Fin (- 1)],
                 lv_vars_x2 := [Fin 2, Fin 8, Fin 0, Fin 0, Fin (- 1)],
                 lognorm_denoms := [Fin (ln (sqrt (pi * 2))), Fin (ln (sqrt (pi * 8))),
                                    Fin 0, Fin 0, Fin (- 1)],
                 model_mean := Fin 185\<rparr>"

definition demo_L0 :: loader where
  "demo_L0 = \<lparr>model_in = \<lparr>buf = ''\<newline>N 70 3\<newline>C 95 2\<newline>'', eofbit = False, failbit = False\<rparr>,
               row = demo_row ''A'' 90 1, tbl = demo_tbl0, cerr = [], stored = []\<rparr>"

definition demo_L1 :: loader where
  "demo_L1 = \<lparr>model_in = \<lparr>buf = ''\<newline>C 95 2\<newline>'', eofbit = False, failbit = False\<rparr>,
               row = demo_row ''N'' 70 3, tbl = demo_tbl1, cerr = [], stored = [(0, Fin 90)]\<rparr>"

definition demo_L2 :: loader where
  "demo_L2 = \<lparr>model_in = \<lparr>buf = ''\<newline>'', eofbit = False, failbit = False\<rparr>,
               row = demo_row ''C'' 95 2, tbl = demo_tbl1, cerr = [4], stored = [(0, Fin 90)]\<rparr>"

definition demo_final :: loader where
  "demo_final = \<lparr>model_in = \<lparr>buf = [], eofbit = True, failbit = True\<rparr>,
               row = demo_row ''C'' 95 2, tbl = demo_tbl2, cerr = [4],
               stored = [(0, Fin 90), (1, Fin 95)]\<rparr>"

text \<open>
  \<open>demo_file\<close> without its last row and with no newline after the row \<open>N 70 3\<close>, and
  the states of the read loop on it: before the row \<open>A 90 1\<close> is processed, and after the
  loop.
\<close>

definition nonl_file :: string where
  "nonl_file = ''kmer mean stdv'' @ [CHR 0x0A] @ ''A 90 1'' @ [CHR 0x0A] @ ''N 70 3''"

definition nonl_L0 :: loader where
  "nonl_L0 = \<lparr>model_in = \<lparr>buf = ''\<newline>N 70 3'', eofbit = False, failbit = False\<rparr>,
               row = demo_row ''A'' 90 1, tbl = demo_tbl0, cerr = [], stored = []\<rparr>"

definition nonl_final :: loader where
  "nonl_final = \<lparr>model_in = \<lparr>buf = [], eofbit = True, failbit = False\<rparr>,
               row = demo_row ''N'' 70 3, tbl = demo_tbl1, cerr = [], stored = [(0, Fin 90)]\<rparr>"


section \<open>The statistics the specification names\<close>

text \<open>
  The arithmetic mean and the population standard deviation of a list of reals, as the
  specification words them; the loops of the source are compared with these.
\<close>

definition arith_mean :: "real list \<Rightarrow> real" where
  "arith_mean xs = sum_list xs / real (length xs)"

definition pop_stdev :: "real list \<Rightarrow> real" where
  "pop_stdev xs = sqrt (sum_list (map (\<lambda>x. (x - arith_mean xs)\<^sup>2) xs) / real (length xs))"

text \<open>
  The mean and the deviation of a batch as the two loops of \<open>get_norm_params\<close> accumulate
  them: from left to right, each operation rounded as the source rounds it.
\<close>

definition batch_mean :: "'a arith_scheme \<Rightarrow> flt list \<Rightarrow> flt" where
  "batch_mean A events = divf A (foldl (addf A) (Fin 0) events) (rf A (real (length events)))"

definition batch_stdv :: "'a arith_scheme \<Rightarrow> flt list \<Rightarrow> flt" where
  "batch_stdv A events =
     to_float A (sqrtd A
       (divf A (foldl (\<lambda>acc e. to_float A (addd A acc (powd A (subf A e (batch_mean A events)))))
                      (Fin 0) events)
               (rf A (real (length events)))))"

text \<open>A small table, for evaluating the theorems at a concrete input.\<close>

definition toy_model :: PoreModel where
  "toy_model = \<lparr>lv_means = [Fin 90, Fin 95, Fin (- 1)],
                lv_vars_x2 = [Fin 2, Fin 8, Fin (- 1)],
                lognorm_denoms = [Fin (ln (sqrt (pi * 2))), Fin (ln (sqrt (pi * 8))), Fin (- 1)],
                lambda_fld = Fin (- 1), model_mean = Fin 10, model_stdv = Fin 3,
                k_fld = 0, kmer_count_fld = 2, loaded = True, complement_fld = False,
                rev_comp_ids = [0, 0]\<rparr>"

text \<open>
  A table with one k-mer whose entries are \<open>float\<close> values: level mean 90, level deviation
  1, hence the doubled variance 2 and, for the logarithm of the square root of \<open>2 * pi\<close>,
  the \<open>float\<close> \<open>15417230 / 2 ^ 24\<close>.
\<close>

definition float_model :: PoreModel where
  "float_model = \<lparr>lv_means = [Fin 90, Fin (- 1)],
                  lv_vars_x2 = [Fin 2, Fin (- 1)],
                  lognorm_denoms = [Fin (15417230 / 2 ^ 24), Fin (- 1)],
                  lambda_fld = Fin (- 1), model_mean = Fin 10, model_stdv = Fin 3,
                  k_fld = 0, kmer_count_fld = 1, loaded = True, complement_fld = False,
                  rev_comp_ids = [0]\<rparr>"

section \<open>Rounding to nearest\<close>

text \<open>
  Rounding to nearest keeps the order and the sign, and a real that is nearer to a multiple
  of the unit in its last place than half that unit is rounded to that multiple.
\<close>

lemma rhe_of_int [simp]: "rhe (of_int n) = n"
  by (simp add: rhe_def)

lemma rhe_bounds: "\<lfloor>q\<rfloor> \<le> rhe q" "rhe q \<le> \<lfloor>q\<rfloor> + 1"
  by (simp_all add: rhe_def Let_def)

lemma rhe_mono: "q1 \<le> q2 \<Longrightarrow> rhe q1 \<le> rhe q2"
proof -
  assume le: "q1 \<le> q2"
  then have fl: "\<lfloor>q1\<rfloor> \<le> \<lfloor>q2\<rfloor>"
    by (rule floor_mono)
  show ?thesis
  proof (cases "\<lfloor>q1\<rfloor> = \<lfloor>q2\<rfloor>")
    case True
    with le have "q1 - of_int \<lfloor>q1\<rfloor> \<le> q2 - of_int \<lfloor>q2\<rfloor>"
      by simp
    with True show ?thesis
      by (auto simp: rhe_def Let_def)
  next
    case False
    with fl have "\<lfloor>q1\<rfloor> + 1 \<le> \<lfloor>q2\<rfloor>"
      by simp
    with rhe_bounds(2) [of q1] rhe_bounds(1) [of q2] show ?thesis
      by linarith
  qed
qed

lemma rhe_near:
  assumes "\<bar>q - of_int n\<bar> < 1 / 2"
  shows "rhe q = n"
proof -
  have b: "of_int n - 1 / 2 < q" "q < of_int n + 1 / 2"
    using assms by linarith+
  have "of_int (n - 1) \<le> q"
    using b(1) by simp
  then have "n - 1 \<le> \<lfloor>q\<rfloor>"
    by (simp only: le_floor_iff)
  moreover have "q < of_int (n + 1)"
    using b(2) by simp
  then have "\<lfloor>q\<rfloor> < n + 1"
    by (simp only: floor_less_iff)
  ultimately have "\<lfloor>q\<rfloor> = n \<or> \<lfloor>q\<rfloor> = n - 1"
    by linarith
  then show ?thesis
  proof
    assume f: "\<lfloor>q\<rfloor> = n"
    then have "q - of_int \<lfloor>q\<rfloor> < 1 / 2"
      using b by simp
    with f show ?thesis
      by (simp add: rhe_def Let_def)
  next
    assume f: "\<lfloor>q\<rfloor> = n - 1"
    then have "1 / 2 < q - of_int \<lfloor>q\<rfloor>"
      using b by simp
    with f show ?thesis
      by (simp add: rhe_def Let_def)
  qed
qed

lemma fle_trans: "fle x y \<Longrightarrow> fle y z \<Longrightarrow> fle x z"
  by (cases x; cases y; cases z) auto

lemma fle_fneg: "fle x y \<Longrightarrow> fle (fneg y) (fneg x)"
  by (cases x; cases y) auto

lemma fneg_fneg [simp]: "fneg (fneg x) = x"
  by (cases x) auto

lemma floor_log2_bounds:
  assumes "0 < x"
  shows "2 powi \<lfloor>log 2 x\<rfloor> \<le> x" and "x < 2 powi (\<lfloor>log 2 x\<rfloor> + 1)"
proof -
  have "2 powr (of_int \<lfloor>log 2 x\<rfloor>) \<le> x \<and> x < 2 powr (of_int (\<lfloor>log 2 x\<rfloor> + 1))"
    using floor_log_eq_powr_iff [of x 2 "\<lfloor>log 2 x\<rfloor>"] assms by simp
  then show "2 powi \<lfloor>log 2 x\<rfloor> \<le> x" and "x < 2 powi (\<lfloor>log 2 x\<rfloor> + 1)"
    by (simp_all only: powr_real_of_int' [of 2, simplified])
qed

lemma floor_log2_eq:
  assumes "2 powi k \<le> x" and "x < 2 powi (k + 1)"
  shows "\<lfloor>log 2 x\<rfloor> = k"
proof -
  have pos: "0 < x"
    using assms(1) zero_less_power_int [of "2 :: real" k] by linarith
  have "2 powr (of_int k) \<le> x \<and> x < 2 powr (of_int (k + 1))"
    using assms by (simp only: powr_real_of_int' [of 2, simplified])
  then show ?thesis
    using floor_log_eq_powr_iff [of x 2 k] pos by simp
qed

lemma floor_log2_mono:
  assumes "0 < x" and "x \<le> y"
  shows "\<lfloor>log 2 x\<rfloor> \<le> \<lfloor>log 2 y\<rfloor>"
  using assms by (intro floor_mono) simp

lemma two_powi_diff: "(2 :: real) powi a / 2 powi b = 2 powi (a - b)"
  by (simp add: power_int_diff)

lemma two_powi_pred:
  assumes "0 < p"
  shows "(2 :: real) powi (int p - 1) = of_int (2 ^ (p - 1))"
proof -
  have "int p - 1 = int (p - 1)"
    using assms by simp
  then show ?thesis
    by (simp only: power_int_of_nat) simp
qed

lemma two_powi_add: "(2 :: real) powi a * 2 powi b = 2 powi (a + b)"
  by (simp add: power_int_add)

lemma rne_pos_nearest:
  assumes "2 powi k \<le> x" and "x < 2 powi (k + 1)" and "1 - emax \<le> k"
    and "\<bar>x - of_int n * 2 powi (k - (int p - 1))\<bar> < 2 powi (k - (int p - 1)) / 2"
  shows "rne_pos p emax x
           = (if (2 :: real) powi (emax + 1) \<le> of_int n * 2 powi (k - (int p - 1)) then PInf
              else Fin (of_int n * 2 powi (k - (int p - 1))))"
proof -
  let ?u = "(2 :: real) powi (k - (int p - 1))"
  have u: "0 < ?u"
    by simp
  have k: "max \<lfloor>log 2 x\<rfloor> (1 - emax) = k"
    using floor_log2_eq [OF assms(1,2)] assms(3) by simp
  have "\<bar>x / ?u - of_int n\<bar> = \<bar>x - of_int n * ?u\<bar> / ?u"
    using u by (simp add: field_simps abs_divide [symmetric] del: zero_less_power_int)
  also have "\<dots> < 1 / 2"
    using assms(4) u by (simp add: field_simps del: zero_less_power_int)
  finally have "rhe (x / ?u) = n"
    by (rule rhe_near)
  then show ?thesis
    unfolding rne_pos_def k Let_def by simp
qed

lemma rne_pos_nonneg:
  assumes "0 < x"
  shows "fle (Fin 0) (rne_pos p emax x)"
proof -
  let ?k = "max \<lfloor>log 2 x\<rfloor> (1 - emax)"
  let ?u = "(2 :: real) powi (?k - (int p - 1))"
  have "0 \<le> x / ?u"
    using assms by simp
  then have "0 \<le> \<lfloor>x / ?u\<rfloor>"
    by simp
  with rhe_bounds(1) [of "x / ?u"] have "0 \<le> rhe (x / ?u)"
    by linarith
  then have "0 \<le> of_int (rhe (x / ?u)) * ?u"
    by simp
  then show ?thesis
    by (simp add: rne_pos_def Let_def)
qed

lemma rne_pos_mono:
  assumes "0 < p" and "0 < x" and "x \<le> y"
  shows "fle (rne_pos p emax x) (rne_pos p emax y)"
proof -
  let ?kx = "max \<lfloor>log 2 x\<rfloor> (1 - emax)" and ?ky = "max \<lfloor>log 2 y\<rfloor> (1 - emax)"
  let ?ux = "(2 :: real) powi (?kx - (int p - 1))" and ?uy = "(2 :: real) powi (?ky - (int p - 1))"
  let ?rx = "of_int (rhe (x / ?ux)) * ?ux" and ?ry = "of_int (rhe (y / ?uy)) * ?uy"
  have ypos: "0 < y"
    using assms by simp
  have kle: "?kx \<le> ?ky"
    using floor_log2_mono [OF assms(2,3)] by simp
  have "?rx \<le> ?ry"
  proof (cases "?kx = ?ky")
    case True
    have "x / ?ux \<le> y / ?ux"
      using assms(3) by (simp add: divide_right_mono)
    then have "rhe (x / ?ux) \<le> rhe (y / ?ux)"
      by (rule rhe_mono)
    then have "of_int (rhe (x / ?ux)) * ?ux \<le> of_int (rhe (y / ?ux)) * ?ux"
      by (intro mult_right_mono) simp_all
    with True show ?thesis
      by simp
  next
    case False
    with kle have lt: "?kx < ?ky"
      by linarith
    have "x < 2 powi (\<lfloor>log 2 x\<rfloor> + 1)"
      by (rule floor_log2_bounds(2) [OF assms(2)])
    also have "\<dots> \<le> 2 powi (?kx + 1)"
      by (intro power_int_increasing) simp_all
    finally have xb: "x < 2 powi (?kx + 1)" .
    have "x / ?ux \<le> 2 powi (?kx + 1) / ?ux"
      using xb by (intro divide_right_mono) simp_all
    also have "\<dots> = 2 powi (?kx + 1 - (?kx - (int p - 1)))"
      by (rule two_powi_diff)
    also have "\<dots> = 2 powi (int p)"
      by (rule arg_cong [where f = "\<lambda>e. 2 powi e"]) simp
    also have "\<dots> = of_int (2 ^ p)"
      by simp
    finally have "rhe (x / ?ux) \<le> rhe (of_int (2 ^ p))"
      by (rule rhe_mono)
    then have "rhe (x / ?ux) \<le> 2 ^ p"
      by (simp only: rhe_of_int)
    then have "(of_int (rhe (x / ?ux)) :: real) \<le> of_int (2 ^ p)"
      by (simp only: of_int_le_iff)
    then have "of_int (rhe (x / ?ux)) \<le> (2 :: real) powi (int p)"
      by simp
    then have "?rx \<le> 2 powi (int p) * ?ux"
      by (intro mult_right_mono) simp_all
    also have "\<dots> = 2 powi (int p + (?kx - (int p - 1)))"
      by (rule two_powi_add)
    also have "\<dots> = 2 powi (?kx + 1)"
      by (rule arg_cong [where f = "\<lambda>e. 2 powi e"]) simp
    also have "\<dots> \<le> 2 powi ?ky"
    proof (rule power_int_increasing)
      show "?kx + 1 \<le> ?ky"
        using lt by linarith
      show "1 \<le> (2 :: real)"
        by simp
    qed
    finally have left: "?rx \<le> 2 powi ?ky" .
    have kyl: "?ky = \<lfloor>log 2 y\<rfloor>"
      using lt by linarith
    have "2 powi ?ky \<le> y"
      unfolding kyl by (rule floor_log2_bounds(1) [OF ypos])
    then have "2 powi ?ky / ?uy \<le> y / ?uy"
      by (intro divide_right_mono) simp_all
    moreover have "2 powi ?ky / ?uy = 2 powi (?ky - (?ky - (int p - 1)))"
      by (rule two_powi_diff)
    moreover have "(2 :: real) powi (?ky - (?ky - (int p - 1))) = 2 powi (int p - 1)"
      by (rule arg_cong [where f = "\<lambda>e. 2 powi e"]) simp
    ultimately have "of_int (2 ^ (p - 1)) \<le> y / ?uy"
      by (simp only: two_powi_pred [OF assms(1)])
    then have "rhe (of_int (2 ^ (p - 1))) \<le> rhe (y / ?uy)"
      by (rule rhe_mono)
    then have "2 ^ (p - 1) \<le> rhe (y / ?uy)"
      by (simp only: rhe_of_int)
    then have "(of_int (2 ^ (p - 1)) :: real) \<le> of_int (rhe (y / ?uy))"
      by (simp only: of_int_le_iff)
    then have "(2 :: real) powi (int p - 1) \<le> of_int (rhe (y / ?uy))"
      by (simp only: two_powi_pred [OF assms(1)])
    then have "2 powi (int p - 1) * ?uy \<le> ?ry"
      by (intro mult_right_mono) simp_all
    moreover have "2 powi (int p - 1) * ?uy = 2 powi (int p - 1 + (?ky - (int p - 1)))"
      by (rule two_powi_add)
    moreover have "(2 :: real) powi (int p - 1 + (?ky - (int p - 1))) = 2 powi ?ky"
      by (rule arg_cong [where f = "\<lambda>e. 2 powi e"]) simp
    ultimately have "2 powi ?ky \<le> ?ry"
      by simp
    with left show ?thesis
      by linarith
  qed
  then show ?thesis
    by (auto simp: rne_pos_def Let_def)
qed

lemma rne_odd: "rne p emax (- x) = fneg (rne p emax x)"
  by (simp add: rne_def)

lemma rne_mono:
  assumes "0 < p" and "x \<le> y"
  shows "fle (rne p emax x) (rne p emax y)"
proof -
  consider "0 < x" | "x = 0" "y = 0" | "x = 0" "0 < y" | "x < 0" "y < 0" | "x < 0" "y = 0"
    | "x < 0" "0 < y"
    using assms(2) by linarith
  then show ?thesis
  proof cases
    case 1
    with assms show ?thesis
      by (simp add: rne_def rne_pos_mono)
  next
    case 2
    then show ?thesis
      by (simp add: rne_def)
  next
    case 3
    then show ?thesis
      by (simp add: rne_def rne_pos_nonneg)
  next
    case 4
    then have "fle (rne_pos p emax (- y)) (rne_pos p emax (- x))"
      using assms by (intro rne_pos_mono) simp_all
    from fle_fneg [OF this] 4 show ?thesis
      by (simp add: rne_def)
  next
    case 5
    from fle_fneg [OF rne_pos_nonneg [of "- x" p emax]] 5 show ?thesis
      by (simp add: rne_def)
  next
    case 6
    from fle_fneg [OF rne_pos_nonneg [of "- x" p emax]] 6
    have "fle (fneg (rne_pos p emax (- x))) (Fin 0)"
      by simp
    from fle_trans [OF this rne_pos_nonneg [of y p emax]] 6 show ?thesis
      by (simp add: rne_def)
  qed
qed

lemma rne_at:
  assumes "2 powi k \<le> x" and "x < 2 powi (k + 1)" and "1 - emax \<le> k"
    and "\<bar>x - of_int n * 2 powi (k - (int p - 1))\<bar> < 2 powi (k - (int p - 1)) / 2"
  shows "rne p emax x
           = (if (2 :: real) powi (emax + 1) \<le> of_int n * 2 powi (k - (int p - 1)) then PInf
              else Fin (of_int n * 2 powi (k - (int p - 1))))"
    and "rne p emax (- x)
           = (if (2 :: real) powi (emax + 1) \<le> of_int n * 2 powi (k - (int p - 1)) then NInf
              else Fin (- (of_int n * 2 powi (k - (int p - 1)))))"
proof -
  have pos: "0 < x"
    using assms(1) zero_less_power_int [of "2 :: real" k] by linarith
  then show "rne p emax x
           = (if (2 :: real) powi (emax + 1) \<le> of_int n * 2 powi (k - (int p - 1)) then PInf
              else Fin (of_int n * 2 powi (k - (int p - 1))))"
    using rne_pos_nearest [OF assms] by (simp add: rne_def)
  from pos show "rne p emax (- x)
           = (if (2 :: real) powi (emax + 1) \<le> of_int n * 2 powi (k - (int p - 1)) then NInf
              else Fin (- (of_int n * 2 powi (k - (int p - 1)))))"
    using rne_pos_nearest [OF assms] by (simp add: rne_def)
qed

lemma monotone_rounding_rne: "0 < p \<Longrightarrow> monotone_rounding (rne p emax)"
  by (simp add: monotone_rounding_def rne_mono rne_odd)

lemma monotone_rounding_Fin: "monotone_rounding Fin"
  by (simp add: monotone_rounding_def)

lemma ieee_monotone: "monotone_rounding (rf ieee)" "monotone_rounding (rd ieee)"
  by (simp_all add: ieee_def monotone_rounding_rne)

lemma round_to_Fin [simp]: "round_to Fin x = x"
  by (cases x) (simp_all add: round_to_def)

lemma round_to_simps [simp]:
  "round_to r (Fin a) = r a" "round_to r PInf = PInf" "round_to r NInf = NInf"
  "round_to r NaN = NaN"
  by (simp_all add: round_to_def)

lemmas op_defs = addf_def subf_def mulf_def divf_def addd_def subd_def muld_def divd_def
  powd_def sqrtd_def logd_def to_float_def

lemma monotone_rounding_zero:
  assumes "monotone_rounding r"
  shows "r 0 = Fin 0"
proof -
  have "r 0 = fneg (r 0)" and "fle (r 0) (r 0)"
    using assms by (auto simp: monotone_rounding_def dest: spec [of _ 0])
  then show ?thesis
    by (cases "r 0") auto
qed

lemma fle_ends: "fle z z \<Longrightarrow> fle NInf z \<and> fle z PInf"
  by (cases z) auto

lemma round_to_mono:
  assumes "monotone_rounding r" and "fle x y"
  shows "fle (round_to r x) (round_to r y)"
proof -
  have m: "a \<le> b \<Longrightarrow> fle (r a) (r b)" for a b
    using assms(1) by (simp add: monotone_rounding_def)
  have e: "fle NInf (r a)" "fle (r a) PInf" for a
    using fle_ends [OF m [of a a]] by simp_all
  from assms(2) show ?thesis
    by (cases x; cases y) (simp_all add: m e)
qed

lemma fpow2_fneg: "fpow2 (fneg x) = fpow2 x"
  by (cases x) (simp_all add: fpow2_def)

lemma fpow2_mono: "fle (Fin 0) x \<Longrightarrow> fle x y \<Longrightarrow> fle (fpow2 x) (fpow2 y)"
  by (cases x; cases y) (simp_all add: fpow2_def mult_mono)

lemma fdiv_mono: "0 < v \<Longrightarrow> fle x y \<Longrightarrow> fle (fdiv x (Fin v)) (fdiv y (Fin v))"
  by (cases x; cases y) (simp_all add: divide_right_mono)

lemma fsub_mono: "fle x y \<Longrightarrow> fle (fsub x (Fin d)) (fsub y (Fin d))"
  by (cases x; cases y) (simp_all add: fsub_def)

section \<open>Scoring and normalisation\<close>

lemma exact_ops:
  assumes "rf A = Fin" and "rd A = Fin"
  shows "addf A x y = fadd x y" "subf A x y = fsub x y" "mulf A x y = fmul x y"
    "divf A x y = fdiv x y" "addd A x y = fadd x y" "subd A x y = fsub x y"
    "muld A x y = fmul x y" "divd A x y = fdiv x y" "powd A x = fpow2 x" "sqrtd A x = fsqrt x"
    "logd A x = flog x" "to_float A x = x"
  by (simp_all add: op_defs assms)

lemma fdiv_fneg: "fdiv (fneg x) y = fneg (fdiv x y)"
  by (cases x; cases y) auto

lemma round_to_fneg:
  assumes "\<And>x. r (- x) = fneg (r x)"
  shows "round_to r (fneg x) = fneg (round_to r x)"
  by (cases x) (simp_all add: assms)

lemma foldl_fadd_Fin:
  "foldl fadd (Fin a) (map Fin xs) = Fin (a + sum_list xs)"
  by (induction xs arbitrary: a) (simp_all add: add.assoc)

lemma foldl_sq_Fin:
  "foldl (\<lambda>acc e. fadd acc (fpow2 (fsub e (Fin c)))) (Fin a) (map Fin xs)
     = Fin (a + sum_list (map (\<lambda>x. (x - c)\<^sup>2) xs))"
  by (induction xs arbitrary: a) (simp_all add: add.assoc fpow2_def fsub_def power2_eq_square)


lemma batch_mean_exact:
  assumes "rf A = Fin" and "rd A = Fin" and "xs \<noteq> []"
  shows "batch_mean A (map Fin xs) = Fin (arith_mean xs)"
proof -
  have "addf A = fadd"
    by (intro ext) (simp add: exact_ops [OF assms(1,2)])
  then show ?thesis
    using assms(3)
    by (simp add: batch_mean_def exact_ops [OF assms(1,2)] assms(1) foldl_fadd_Fin arith_mean_def)
qed

lemma batch_stdv_exact:
  assumes "rf A = Fin" and "rd A = Fin" and "xs \<noteq> []"
  shows "batch_stdv A (map Fin xs) = Fin (pop_stdev xs)"
proof -
  have "0 \<le> sum_list (map (\<lambda>x. (x - arith_mean xs)\<^sup>2) xs)"
    by (rule sum_list_nonneg) auto
  then have "0 \<le> sum_list (map (\<lambda>x. (x - arith_mean xs)\<^sup>2) xs) / real (length xs)"
    by simp
  with assms(3) show ?thesis
    by (simp add: batch_stdv_def batch_mean_exact [OF assms] exact_ops [OF assms(1,2)] assms(1)
          foldl_sq_Fin pop_stdev_def)
qed

lemma get_norm_params_batch:
  "get_norm_params A m events =
     \<lparr>shift = subf A (model_mean m)
                     (mulf A (divf A (model_stdv m) (batch_stdv A events)) (batch_mean A events)),
      scale = divf A (model_stdv m) (batch_stdv A events)\<rparr>"
proof -
  have "(\<lambda>acc e. addf A acc e) = addf A"
    by (intro ext) simp
  then show ?thesis
    by (simp add: get_norm_params_def batch_mean_def batch_stdv_def Let_def)
qed


lemma get_norm_params_real:
  assumes "rf A = Fin" and "rd A = Fin" and "xs \<noteq> []" and "pop_stdev xs \<noteq> 0"
    and "model_mean m = Fin gm" and "model_stdv m = Fin gs"
  shows "get_norm_params A m (map Fin xs) =
           \<lparr>shift = Fin (gm - gs / pop_stdev xs * arith_mean xs),
            scale = Fin (gs / pop_stdev xs)\<rparr>"
  using assms(4-6)
  by (simp add: get_norm_params_batch batch_mean_exact [OF assms(1-3)]
        batch_stdv_exact [OF assms(1-3)] exact_ops [OF assms(1,2)] fsub_def)

lemma arith_mean_affine:
  assumes "xs \<noteq> []"
  shows "arith_mean (map (\<lambda>x. a * x + b) xs) = a * arith_mean xs + b"
proof -
  have "sum_list (map (\<lambda>x. a * x + b) xs) = a * sum_list xs + real (length xs) * b"
    by (induction xs) (simp_all add: algebra_simps)
  with assms show ?thesis
    by (simp add: arith_mean_def field_simps)
qed

lemma pop_stdev_affine:
  assumes "xs \<noteq> []"
  shows "pop_stdev (map (\<lambda>x. a * x + b) xs) = \<bar>a\<bar> * pop_stdev xs"
proof -
  let ?m = "arith_mean xs"
  have "sum_list (map (\<lambda>x. (a * x + b - (a * c + b))\<^sup>2) ys)
          = a\<^sup>2 * sum_list (map (\<lambda>x. (x - c)\<^sup>2) ys)" for c ys
    by (induction ys) (simp_all add: algebra_simps power2_eq_square)
  then have sq: "sum_list (map (\<lambda>x. (a * x + b - (a * ?m + b))\<^sup>2) xs)
          = a\<^sup>2 * sum_list (map (\<lambda>x. (x - ?m)\<^sup>2) xs)" .
  define q where "q = sum_list (map (\<lambda>x. (x - ?m)\<^sup>2) xs) / real (length xs)"
  have "pop_stdev (map (\<lambda>x. a * x + b) xs) = sqrt (a\<^sup>2 * q)"
    using sq by (simp add: pop_stdev_def arith_mean_affine [OF assms] comp_def q_def)
  also have "\<dots> = \<bar>a\<bar> * sqrt q"
    by (simp add: real_sqrt_mult)
  also have "sqrt q = pop_stdev xs"
    by (simp add: pop_stdev_def q_def)
  finally show ?thesis .
qed

lemma pop_stdev_nonneg: "0 \<le> pop_stdev xs"
proof -
  have "0 \<le> sum_list (map (\<lambda>x. (x - arith_mean xs)\<^sup>2) xs)"
    by (rule sum_list_nonneg) auto
  then show ?thesis
    by (simp add: pop_stdev_def)
qed

lemma normalize_explicit:
  "\<not> feq (scale p) (Fin 0) \<Longrightarrow>
   normalize A m events p = map (\<lambda>e. addf A (mulf A (scale p) e) (shift p)) events"
  by (simp add: normalize_def)

lemma normalize_reestimate:
  "feq (scale p) (Fin 0) \<Longrightarrow>
   normalize A m events p
     = map (\<lambda>e. addf A (mulf A (scale (get_norm_params A m events)) e)
                       (shift (get_norm_params A m events))) events"
  by (simp add: normalize_def Let_def)

lemma normalize_estimated:
  "normalize A m events (get_norm_params A m events)
     = map (\<lambda>e. addf A (mulf A (scale (get_norm_params A m events)) e)
                       (shift (get_norm_params A m events))) events"
  by (cases "feq (scale (get_norm_params A m events)) (Fin 0)")
     (simp_all add: normalize_explicit normalize_reestimate)

lemma event_match_prob_in_range:
  assumes "length (lv_means m) = unat (kmer_count_fld m) + 1"
    and "length (lv_vars_x2 m) = unat (kmer_count_fld m) + 1"
    and "length (lognorm_denoms m) = unat (kmer_count_fld m) + 1"
    and "k_id < kmer_count_fld m"
  shows "event_match_prob A m x k_id
           = Some (to_float A
                     (subd A (divd A (fneg (powd A (subf A x (lv_means m ! unat k_id))))
                                     (lv_vars_x2 m ! unat k_id))
                             (lognorm_denoms m ! unat k_id)))"
proof -
  have "unat k_id < unat (kmer_count_fld m)"
    using assms(4) by (simp add: word_less_nat_alt)
  with assms(1-3) show ?thesis
    by (simp add: event_match_prob_def)
qed

lemma divd_fneg:
  assumes "\<And>x. rd A (- x) = fneg (rd A x)"
  shows "divd A (fneg x) y = fneg (divd A x y)"
  by (simp add: divd_def fdiv_fneg round_to_fneg [of "rd A", OF assms])

lemma event_match_prob_real:
  assumes "rf A = Fin" and "rd A = Fin"
    and "unat k_id < length (lv_means m)" and "unat k_id < length (lv_vars_x2 m)"
    and "unat k_id < length (lognorm_denoms m)"
    and "lv_means m ! unat k_id = Fin mu" and "lv_vars_x2 m ! unat k_id = Fin v"
    and "lognorm_denoms m ! unat k_id = Fin d" and "v \<noteq> 0"
  shows "event_match_prob A m (Fin a) k_id = Some (Fin (- ((a - mu)\<^sup>2 / v) - d))"
  using assms(3-9)
  by (simp add: event_match_prob_def exact_ops [OF assms(1,2)] fsub_def fpow2_def
        power2_eq_square)

lemma score_chain:
  assumes rf: "monotone_rounding (rf A)" and rd: "monotone_rounding (rd A)"
    and v: "0 < v" and le: "fle p q"
  shows "fle (to_float A (subd A (divd A (fneg q) (Fin v)) (Fin d)))
             (to_float A (subd A (divd A (fneg p) (Fin v)) (Fin d)))"
  unfolding to_float_def subd_def divd_def
  by (intro round_to_mono [OF rf] round_to_mono [OF rd] fsub_mono fdiv_mono [OF v] fle_fneg le)

lemma powd_abs:
  assumes rf: "monotone_rounding (rf A)"
  shows "powd A (rf A x) = powd A (rf A \<bar>x\<bar>)"
proof (cases "0 \<le> x")
  case True
  then show ?thesis by simp
next
  case False
  then have "rf A x = fneg (rf A \<bar>x\<bar>)"
    using rf by (auto simp: monotone_rounding_def dest: spec [of _ "- x"])
  then show ?thesis
    by (simp add: powd_def fpow2_fneg)
qed

lemma powd_mono:
  assumes rf: "monotone_rounding (rf A)" and rd: "monotone_rounding (rd A)"
    and "0 \<le> a" and "a \<le> b"
  shows "fle (powd A (rf A a)) (powd A (rf A b))"
proof -
  have m: "x \<le> y \<Longrightarrow> fle (rf A x) (rf A y)" for x y
    using rf by (simp add: monotone_rounding_def)
  have "fle (Fin 0) (rf A a)"
    using m [OF assms(3)] monotone_rounding_zero [OF rf] by simp
  then show ?thesis
    unfolding powd_def by (intro round_to_mono [OF rd] fpow2_mono m assms(4))
qed

text \<open>Values of the binary32 and binary64 roundings, and the scores they give.\<close>

lemma rf_ieee_vals:
  "rf ieee (2 ^ 127 - 90) = Fin (2 ^ 127)"
  "rf ieee (3 * 2 ^ 126 - 90) = Fin (3 * 2 ^ 126)"
  "rf ieee (- (2 ^ 253)) = NInf"
  "rf ieee (- (9 * 2 ^ 251)) = NInf"
  "rf ieee (2 ^ 127) = Fin (2 ^ 127)"
  "rf ieee (- (2 ^ 127)) = Fin (- (2 ^ 127))"
  "rf ieee (2 ^ 254) = PInf"
  "rf ieee 2 = Fin 2"
  "rf ieee 10 = Fin 10"
  "rf ieee 0 = Fin 0"
proof -
  show "rf ieee (2 ^ 127 - 90) = Fin (2 ^ 127)"
    using rne_at(1) [of 126 "2 ^ 127 - 90" 127 "2 ^ 24" 24] by (simp add: ieee_def)
  show "rf ieee (3 * 2 ^ 126 - 90) = Fin (3 * 2 ^ 126)"
    using rne_at(1) [of 127 "3 * 2 ^ 126 - 90" 127 "3 * 2 ^ 22" 24] by (simp add: ieee_def)
  show "rf ieee (- (2 ^ 253)) = NInf"
    using rne_at(2) [of 253 "2 ^ 253" 127 "2 ^ 23" 24] by (simp add: ieee_def)
  show "rf ieee (- (9 * 2 ^ 251)) = NInf"
    using rne_at(2) [of 254 "9 * 2 ^ 251" 127 "9 * 2 ^ 20" 24] by (simp add: ieee_def)
  show "rf ieee (2 ^ 127) = Fin (2 ^ 127)"
    using rne_at(1) [of 127 "2 ^ 127" 127 "2 ^ 23" 24] by (simp add: ieee_def)
  show "rf ieee (- (2 ^ 127)) = Fin (- (2 ^ 127))"
    using rne_at(2) [of 127 "2 ^ 127" 127 "2 ^ 23" 24] by (simp add: ieee_def)
  show "rf ieee (2 ^ 254) = PInf"
    using rne_at(1) [of 254 "2 ^ 254" 127 "2 ^ 23" 24] by (simp add: ieee_def)
  show "rf ieee 2 = Fin 2"
    using rne_at(1) [of 1 2 127 "2 ^ 23" 24] by (simp add: ieee_def)
  show "rf ieee 10 = Fin 10"
    using rne_at(1) [of 3 10 127 "10 * 2 ^ 20" 24] by (simp add: ieee_def)
  show "rf ieee 0 = Fin 0"
    by (simp add: ieee_def rne_def)
qed

lemma rd_ieee_vals:
  "rd ieee (2 ^ 254) = Fin (2 ^ 254)"
  "rd ieee (9 * 2 ^ 252) = Fin (9 * 2 ^ 252)"
  "rd ieee (- (2 ^ 253)) = Fin (- (2 ^ 253))"
  "rd ieee (- (9 * 2 ^ 251)) = Fin (- (9 * 2 ^ 251))"
  "rd ieee (- (2 ^ 253 + 15417230 / 2 ^ 24)) = Fin (- (2 ^ 253))"
  "rd ieee (- (9 * 2 ^ 251 + 15417230 / 2 ^ 24)) = Fin (- (9 * 2 ^ 251))"
  "rd ieee 0 = Fin 0"
proof -
  show "rd ieee (2 ^ 254) = Fin (2 ^ 254)"
    using rne_at(1) [of 254 "2 ^ 254" 1023 "2 ^ 52" 53] by (simp add: ieee_def)
  show "rd ieee (9 * 2 ^ 252) = Fin (9 * 2 ^ 252)"
    using rne_at(1) [of 255 "9 * 2 ^ 252" 1023 "9 * 2 ^ 49" 53] by (simp add: ieee_def)
  show "rd ieee (- (2 ^ 253)) = Fin (- (2 ^ 253))"
    using rne_at(2) [of 253 "2 ^ 253" 1023 "2 ^ 52" 53] by (simp add: ieee_def)
  show "rd ieee (- (9 * 2 ^ 251)) = Fin (- (9 * 2 ^ 251))"
    using rne_at(2) [of 254 "9 * 2 ^ 251" 1023 "9 * 2 ^ 49" 53] by (simp add: ieee_def)
  show "rd ieee (- (2 ^ 253 + 15417230 / 2 ^ 24)) = Fin (- (2 ^ 253))"
    using rne_at(2) [of 253 "2 ^ 253 + 15417230 / 2 ^ 24" 1023 "2 ^ 52" 53]
    by (simp add: ieee_def)
  show "rd ieee (- (9 * 2 ^ 251 + 15417230 / 2 ^ 24)) = Fin (- (9 * 2 ^ 251))"
    using rne_at(2) [of 254 "9 * 2 ^ 251 + 15417230 / 2 ^ 24" 1023 "9 * 2 ^ 49" 53]
    by (simp add: ieee_def)
  show "rd ieee 0 = Fin 0"
    by (simp add: ieee_def rne_def)
qed

lemma float_model_row:
  "unat (0 :: 16 word) < length (lv_means float_model)"
  "unat (0 :: 16 word) < length (lv_vars_x2 float_model)"
  "unat (0 :: 16 word) < length (lognorm_denoms float_model)"
  "lv_means float_model ! unat (0 :: 16 word) = Fin 90"
  "lv_vars_x2 float_model ! unat (0 :: 16 word) = Fin 2"
  "lognorm_denoms float_model ! unat (0 :: 16 word) = Fin (15417230 / 2 ^ 24)"
  by (simp_all add: float_model_def)

lemma score_overflow_1: "event_match_prob ieee float_model (Fin (2 ^ 127)) 0 = Some NInf"
  using float_model_row
  by (simp add: event_match_prob_def op_defs fsub_def fpow2_def
        rf_ieee_vals [simplified] rd_ieee_vals [simplified])

lemma score_overflow_2: "event_match_prob ieee float_model (Fin (3 * 2 ^ 126)) 0 = Some NInf"
  using float_model_row
  by (simp add: event_match_prob_def op_defs fsub_def fpow2_def
        rf_ieee_vals [simplified] rd_ieee_vals [simplified])

lemma rf_ieee_small:
  "rf ieee (13 / 2 ^ 17) = Fin (13 / 2 ^ 17)"
  "rf ieee (- (15417230 / 2 ^ 24)) = Fin (- (15417230 / 2 ^ 24))"
  "rf ieee (- (15417230 / 2 ^ 24 + 169 / 2 ^ 35)) = Fin (- (15417230 / 2 ^ 24))"
proof -
  show "rf ieee (13 / 2 ^ 17) = Fin (13 / 2 ^ 17)"
    using rne_at(1) [of "- 14" "13 / 2 ^ 17" 127 "13 * 2 ^ 20" 24] by (simp add: ieee_def)
  show "rf ieee (- (15417230 / 2 ^ 24)) = Fin (- (15417230 / 2 ^ 24))"
    using rne_at(2) [of "- 1" "15417230 / 2 ^ 24" 127 15417230 24] by (simp add: ieee_def)
  show "rf ieee (- (15417230 / 2 ^ 24 + 169 / 2 ^ 35)) = Fin (- (15417230 / 2 ^ 24))"
    using rne_at(2) [of "- 1" "15417230 / 2 ^ 24 + 169 / 2 ^ 35" 127 15417230 24]
    by (simp add: ieee_def)
qed

lemma rd_ieee_small:
  "rd ieee (169 / 2 ^ 34) = Fin (169 / 2 ^ 34)"
  "rd ieee (- (169 / 2 ^ 35)) = Fin (- (169 / 2 ^ 35))"
  "rd ieee (- (15417230 / 2 ^ 24)) = Fin (- (15417230 / 2 ^ 24))"
  "rd ieee (- (15417230 / 2 ^ 24 + 169 / 2 ^ 35)) = Fin (- (15417230 / 2 ^ 24 + 169 / 2 ^ 35))"
proof -
  show "rd ieee (169 / 2 ^ 34) = Fin (169 / 2 ^ 34)"
    using rne_at(1) [of "- 27" "169 / 2 ^ 34" 1023 "169 * 2 ^ 45" 53] by (simp add: ieee_def)
  show "rd ieee (- (169 / 2 ^ 35)) = Fin (- (169 / 2 ^ 35))"
    using rne_at(2) [of "- 28" "169 / 2 ^ 35" 1023 "169 * 2 ^ 45" 53] by (simp add: ieee_def)
  show "rd ieee (- (15417230 / 2 ^ 24)) = Fin (- (15417230 / 2 ^ 24))"
    using rne_at(2) [of "- 1" "15417230 / 2 ^ 24" 1023 "15417230 * 2 ^ 29" 53]
    by (simp add: ieee_def)
  show "rd ieee (- (15417230 / 2 ^ 24 + 169 / 2 ^ 35))
          = Fin (- (15417230 / 2 ^ 24 + 169 / 2 ^ 35))"
    using rne_at(2) [of "- 1" "15417230 / 2 ^ 24 + 169 / 2 ^ 35" 1023
        "15417230 * 2 ^ 29 + 169 * 2 ^ 18" 53]
    by (simp add: ieee_def)
qed

lemma score_near_1:
  "event_match_prob ieee float_model (Fin 90) 0 = Some (Fin (- (15417230 / 2 ^ 24)))"
  using float_model_row
  by (simp add: event_match_prob_def op_defs fsub_def fpow2_def
        rf_ieee_vals [simplified] rd_ieee_vals [simplified]
        rf_ieee_small [simplified] rd_ieee_small [simplified])

lemma score_near_2:
  "event_match_prob ieee float_model (Fin (90 + 13 / 2 ^ 17)) 0
     = Some (Fin (- (15417230 / 2 ^ 24)))"
  using float_model_row
  by (simp add: event_match_prob_def op_defs fsub_def fpow2_def
        rf_ieee_vals [simplified] rd_ieee_vals [simplified]
        rf_ieee_small [simplified] rd_ieee_small [simplified])

lemma gnp_ieee_overflow:
  "get_norm_params ieee float_model [Fin (2 ^ 127), Fin (- (2 ^ 127))]
     = \<lparr>shift = Fin 10, scale = Fin 0\<rparr>"
  by (simp add: get_norm_params_def Let_def op_defs fsub_def fpow2_def float_model_def
        rf_ieee_vals [simplified] rd_ieee_vals [simplified])

text \<open>
  C5. For an identifier below \<open>kmer_count\<close>, in a table whose three vectors have
  \<open>kmer_count + 1\<close> entries, \<open>event_match_prob\<close> returns
  \<open>- ((x - means[id])^2 / variance2x[id]) - log_norm_denom[id]\<close>, each operation rounded
  as the source rounds it, whenever the rounding to \<open>double\<close> keeps the sign; and the
  overload on an event returns what the overload on a value returns for the event's mean.
\<close>

theorem event_match_prob_formula:
  assumes "length (lv_means m) = unat (kmer_count_fld m) + 1"
    and "length (lv_vars_x2 m) = unat (kmer_count_fld m) + 1"
    and "length (lognorm_denoms m) = unat (kmer_count_fld m) + 1"
    and "k_id < kmer_count_fld m"
    and "\<And>x. rd A (- x) = fneg (rd A x)"
  shows "event_match_prob A m x k_id
           = Some (to_float A
                     (subd A (fneg (divd A (powd A (subf A x (lv_means m ! unat k_id)))
                                           (lv_vars_x2 m ! unat k_id)))
                             (lognorm_denoms m ! unat k_id)))
       \<and> event_match_prob_ev A m e k_id = event_match_prob A m (mean e) k_id"
  using event_match_prob_in_range [OF assms(1-4), of A x]
  by (simp add: event_match_prob_ev_def divd_fneg [of A, OF assms(5)])

theorem event_match_prob_formula_witness:
  "length (lv_means toy_model) = unat (kmer_count_fld toy_model) + 1
   \<and> length (lv_vars_x2 toy_model) = unat (kmer_count_fld toy_model) + 1
   \<and> length (lognorm_denoms toy_model) = unat (kmer_count_fld toy_model) + 1
   \<and> (1 :: 16 word) < kmer_count_fld toy_model
   \<and> (\<forall>x. rd exact (- x) = fneg (rd exact x))
   \<and> event_match_prob exact toy_model (Fin 97) 1 = Some (Fin (- (1 / 2) - ln (sqrt (pi * 8))))
   \<and> event_match_prob_ev exact toy_model \<lparr>mean = Fin 97\<rparr> 1
       = event_match_prob exact toy_model (Fin 97) 1
   \<and> length (lv_means float_model) = unat (kmer_count_fld float_model) + 1
   \<and> length (lv_vars_x2 float_model) = unat (kmer_count_fld float_model) + 1
   \<and> length (lognorm_denoms float_model) = unat (kmer_count_fld float_model) + 1
   \<and> (0 :: 16 word) < kmer_count_fld float_model
   \<and> (\<forall>x. rd ieee (- x) = fneg (rd ieee x))
   \<and> event_match_prob_ev ieee float_model \<lparr>mean = Fin (90 + 13 / 2 ^ 17)\<rparr> 0
       = Some (Fin (- (15417230 / 2 ^ 24)))"
proof -
  have s: "rd ieee (- x) = fneg (rd ieee x)" for x
    using ieee_monotone(2) by (simp add: monotone_rounding_def)
  have a: "length (lv_means float_model) = unat (kmer_count_fld float_model) + 1"
    "length (lv_vars_x2 float_model) = unat (kmer_count_fld float_model) + 1"
    "length (lognorm_denoms float_model) = unat (kmer_count_fld float_model) + 1"
    "(0 :: 16 word) < kmer_count_fld float_model"
    by (simp_all add: float_model_def)
  have "event_match_prob_ev ieee float_model \<lparr>mean = Fin (90 + 13 / 2 ^ 17)\<rparr> 0
          = Some (Fin (- (15417230 / 2 ^ 24)))"
    using event_match_prob_formula [OF a s, of "Fin (90 + 13 / 2 ^ 17)"
        "\<lparr>mean = Fin (90 + 13 / 2 ^ 17)\<rparr>"] score_near_2
    by simp
  moreover have "event_match_prob exact toy_model (Fin 97) 1
                   = Some (Fin (- (1 / 2) - ln (sqrt (pi * 8))))
     \<and> event_match_prob_ev exact toy_model \<lparr>mean = Fin 97\<rparr> 1
       = event_match_prob exact toy_model (Fin 97) 1"
    using event_match_prob_formula [of toy_model 1 exact "Fin 97" "\<lparr>mean = Fin 97\<rparr>"]
    by (simp add: toy_model_def exact_def op_defs fsub_def fpow2_def)
  ultimately show ?thesis
    using a s by (simp add: toy_model_def exact_def)
qed

text \<open>
  The score does not decrease strictly. In binary32 and binary64, for the level mean 90 and
  the doubled variance 2, the values 90 and \<open>90 + 13 / 2 ^ 17\<close> have the same score: the
  difference of \<open>169 / 2 ^ 35\<close> is lost when the result is converted to \<open>float\<close>. And the
  values \<open>2 ^ 127\<close> and \<open>3 * 2 ^ 126\<close> both have the score minus infinity.
\<close>

theorem event_match_prob_tie:
  "lv_vars_x2 float_model ! unat (0 :: 16 word) = Fin 2
   \<and> lv_means float_model ! unat (0 :: 16 word) = Fin 90
   \<and> \<bar>90 - 90 :: real\<bar> < \<bar>90 + 13 / 2 ^ 17 - 90\<bar>
   \<and> event_match_prob ieee float_model (Fin 90) 0
       = event_match_prob ieee float_model (Fin (90 + 13 / 2 ^ 17)) 0
   \<and> \<bar>2 ^ 127 - 90 :: real\<bar> < \<bar>3 * 2 ^ 126 - 90\<bar>
   \<and> event_match_prob ieee float_model (Fin (2 ^ 127)) 0 = Some NInf
   \<and> event_match_prob ieee float_model (Fin (3 * 2 ^ 126)) 0 = Some NInf"
  using float_model_row(4,5) score_near_1 score_near_2 score_overflow_1 score_overflow_2
  by simp

text \<open>
  C8. For an identifier whose doubled variance is positive, the score does not increase
  with the distance of the observed value from the stored mean: of two finite values, the
  farther one has a score that is less than or equal to the score of the nearer one. This
  holds for every rounding that keeps the order and the sign, as rounding to nearest does.
\<close>

theorem event_match_prob_antitone:
  assumes "monotone_rounding (rf A)" and "monotone_rounding (rd A)"
    and "unat k_id < length (lv_means m)" and "unat k_id < length (lv_vars_x2 m)"
    and "unat k_id < length (lognorm_denoms m)"
    and "lv_means m ! unat k_id = Fin mu" and "lv_vars_x2 m ! unat k_id = Fin v"
    and "lognorm_denoms m ! unat k_id = Fin d" and "0 < v"
    and "\<bar>x1 - mu\<bar> < \<bar>x2 - mu\<bar>"
  shows "\<exists>p1 p2. event_match_prob A m (Fin x1) k_id = Some p1
               \<and> event_match_prob A m (Fin x2) k_id = Some p2 \<and> fle p2 p1"
proof -
  let ?g = "\<lambda>p. to_float A (subd A (divd A (fneg p) (Fin v)) (Fin d))"
  have sc: "event_match_prob A m (Fin x) k_id = Some (?g (powd A (rf A \<bar>x - mu\<bar>)))" for x
    using assms(3-8)
    by (simp add: event_match_prob_def subf_def fsub_def powd_abs [OF assms(1), symmetric])
  have "fle (powd A (rf A \<bar>x1 - mu\<bar>)) (powd A (rf A \<bar>x2 - mu\<bar>))"
    using assms(10) by (intro powd_mono [OF assms(1,2)]) simp_all
  then have "fle (?g (powd A (rf A \<bar>x2 - mu\<bar>))) (?g (powd A (rf A \<bar>x1 - mu\<bar>)))"
    by (rule score_chain [OF assms(1,2,9)])
  with sc show ?thesis
    by blast
qed

theorem event_match_prob_antitone_witness:
  "monotone_rounding (rf ieee) \<and> monotone_rounding (rd ieee)
   \<and> unat (0 :: 16 word) < length (lv_means float_model)
   \<and> unat (0 :: 16 word) < length (lv_vars_x2 float_model)
   \<and> unat (0 :: 16 word) < length (lognorm_denoms float_model)
   \<and> lv_means float_model ! unat (0 :: 16 word) = Fin 90
   \<and> lv_vars_x2 float_model ! unat (0 :: 16 word) = Fin 2
   \<and> lognorm_denoms float_model ! unat (0 :: 16 word) = Fin (15417230 / 2 ^ 24)
   \<and> (0 :: real) < 2 \<and> \<bar>90 - 90 :: real\<bar> < \<bar>91 - 90\<bar>
   \<and> (\<exists>p1 p2. event_match_prob ieee float_model (Fin 90) 0 = Some p1
               \<and> event_match_prob ieee float_model (Fin 91) 0 = Some p2 \<and> fle p2 p1)"
proof -
  have h: "unat (0 :: 16 word) < length (lv_means float_model)"
    "unat (0 :: 16 word) < length (lv_vars_x2 float_model)"
    "unat (0 :: 16 word) < length (lognorm_denoms float_model)"
    "lv_means float_model ! unat (0 :: 16 word) = Fin 90"
    "lv_vars_x2 float_model ! unat (0 :: 16 word) = Fin 2"
    "lognorm_denoms float_model ! unat (0 :: 16 word) = Fin (15417230 / 2 ^ 24)"
    by (simp_all add: float_model_def)
  have d: "(0 :: real) < 2" "\<bar>90 - 90 :: real\<bar> < \<bar>91 - 90\<bar>"
    by simp_all
  from event_match_prob_antitone [OF ieee_monotone h d] ieee_monotone h d show ?thesis
    by blast
qed



text \<open>
  The round trip fails in binary32. The batch of \<open>2 ^ 127\<close> and \<open>- (2 ^ 127)\<close> has a
  deviation other than zero; the sum of its squares overflows, the estimated scale is zero,
  and both values are mapped to the global mean: the deviation of the result is 0, not the
  global deviation 3.
\<close>

theorem normalize_round_trip_float_fails:
  "pop_stdev [2 ^ 127, - (2 ^ 127)] \<noteq> 0
   \<and> model_mean float_model = Fin 10 \<and> model_stdv float_model = Fin 3
   \<and> normalize ieee float_model [Fin (2 ^ 127), Fin (- (2 ^ 127))]
         (get_norm_params ieee float_model [Fin (2 ^ 127), Fin (- (2 ^ 127))])
       = map Fin [10, 10]
   \<and> pop_stdev [10, 10] = 0"
proof -
  have "pop_stdev [2 ^ 127, - (2 ^ 127)] \<noteq> 0"
    by (simp add: pop_stdev_def arith_mean_def)
  moreover have "pop_stdev [10, 10] = 0"
    by (simp add: pop_stdev_def arith_mean_def)
  moreover have "normalize ieee float_model [Fin (2 ^ 127), Fin (- (2 ^ 127))]
         (get_norm_params ieee float_model [Fin (2 ^ 127), Fin (- (2 ^ 127))])
       = map Fin [10, 10]"
    by (simp add: normalize_def Let_def gnp_ieee_overflow [simplified] op_defs
          rf_ieee_vals [simplified])
  ultimately show ?thesis
    by (simp add: float_model_def)
qed

text \<open>
  C7. Round trip, in exact real arithmetic: when no operation rounds or overflows, after
  \<open>normalize\<close> with the parameters that \<open>get_norm_params\<close> estimated from the same batch,
  the batch has the table's global mean as its arithmetic mean and the table's global
  deviation as its population standard deviation. The constructor computes the global
  deviation as a square root, hence the hypothesis that it is not negative.
\<close>

theorem normalize_round_trip:
  assumes "rf A = Fin" and "rd A = Fin"
    and "xs \<noteq> []" and "pop_stdev xs \<noteq> 0"
    and "model_mean m = Fin gm" and "model_stdv m = Fin gs" and "0 \<le> gs"
  shows "\<exists>ys. normalize A m (map Fin xs) (get_norm_params A m (map Fin xs)) = map Fin ys
            \<and> arith_mean ys = gm \<and> pop_stdev ys = gs"
proof -
  let ?s = "pop_stdev xs" and ?a = "arith_mean xs"
  let ?ys = "map (\<lambda>x. gs / ?s * x + (gm - gs / ?s * ?a)) xs"
  have pos: "0 < ?s"
    using assms(4) pop_stdev_nonneg [of xs] by simp
  have "normalize A m (map Fin xs) (get_norm_params A m (map Fin xs)) = map Fin ?ys"
    unfolding normalize_estimated
    by (simp add: get_norm_params_real [OF assms(1-6)] exact_ops [OF assms(1,2)] comp_def)
  moreover have "arith_mean ?ys = gm"
    using arith_mean_affine [OF assms(3), of "gs / ?s" "gm - gs / ?s * ?a"] by simp
  moreover have "pop_stdev ?ys = gs"
    using pos assms(7) pop_stdev_affine [OF assms(3), of "gs / ?s" "gm - gs / ?s * ?a"]
    by simp
  ultimately show ?thesis by blast
qed

theorem normalize_round_trip_witness:
  "rf exact = Fin \<and> rd exact = Fin \<and> [1, 3 :: real] \<noteq> [] \<and> pop_stdev [1, 3] \<noteq> 0
   \<and> model_mean toy_model = Fin 10 \<and> model_stdv toy_model = Fin 3 \<and> (0::real) \<le> 3
   \<and> (\<exists>ys. normalize exact toy_model (map Fin [1, 3])
                 (get_norm_params exact toy_model (map Fin [1, 3]))
               = map Fin ys \<and> arith_mean ys = 10 \<and> pop_stdev ys = 3)"
proof -
  have h: "pop_stdev [1, 3] = 1"
    by (simp add: pop_stdev_def arith_mean_def)
  have e: "rf exact = Fin" "rd exact = Fin"
    by (simp_all add: exact_def)
  show ?thesis
    using normalize_round_trip [OF e, of "[1, 3]" toy_model 10 3] h e
    by (simp add: toy_model_def)
qed

text \<open>
  C3. \<open>normalize\<close> with the default parameters \<open>{0, 0}\<close> gives the batch that
  \<open>normalize\<close> gives with the parameters \<open>get_norm_params\<close> returns for the unmodified
  batch; both overloads. This holds for every batch: when the estimated scale is zero, the
  explicit call estimates again, from the same batch.
\<close>

theorem normalize_default_sentinel:
  "normalize A m events norm_default = normalize A m events (get_norm_params A m events)
   \<and> normalize_ev A m evs norm_default = normalize_ev A m evs (get_norm_params_ev A m evs)"
proof
  show "normalize A m events norm_default = normalize A m events (get_norm_params A m events)"
    by (simp add: normalize_estimated normalize_reestimate norm_default_def)
  show "normalize_ev A m evs norm_default = normalize_ev A m evs (get_norm_params_ev A m evs)"
    by (cases "feq (scale (get_norm_params_ev A m evs)) (Fin 0)")
       (simp_all add: normalize_ev_def norm_default_def Let_def)
qed

text \<open>
  C10. A zero scale triggers the estimate whatever the shift is: the shift passed in is
  dropped, the parameters come from \<open>get_norm_params\<close> on the batch, and the result is the
  one of the default parameters; both overloads.
\<close>

theorem normalize_zero_scale_any_shift:
  "normalize A m events \<lparr>shift = s, scale = Fin 0\<rparr>
     = map (\<lambda>e. addf A (mulf A (scale (get_norm_params A m events)) e)
                       (shift (get_norm_params A m events))) events
   \<and> normalize A m events \<lparr>shift = s, scale = Fin 0\<rparr> = normalize A m events norm_default
   \<and> normalize_ev A m evs \<lparr>shift = s, scale = Fin 0\<rparr>
     = map (\<lambda>e. e\<lparr>mean := addf A (mulf A (scale (get_norm_params_ev A m evs)) (mean e))
                                  (shift (get_norm_params_ev A m evs))\<rparr>) evs
   \<and> normalize_ev A m evs \<lparr>shift = s, scale = Fin 0\<rparr> = normalize_ev A m evs norm_default"
  by (simp add: normalize_def normalize_ev_def norm_default_def Let_def)

section \<open>The loader\<close>

lemmas stream_defs = get_string_def get_float_def sentry_def is_space_def demo_num_get_def
  is_digit_def read_row_def demo_env_def

lemmas demo_defs = demo_row_def demo_locals_def demo_this_def demo_tbl0_def demo_tbl1_def
  demo_tbl2_def demo_L0_def demo_L1_def demo_L2_def demo_final_def

lemma demo_header:
  "getline (ifstream_open (Some demo_file)) []
     = (\<lparr>buf = ''A 90 1\<newline>N 70 3\<newline>C 95 2\<newline>'', eofbit = False, failbit = False\<rparr>,
        ''kmer mean stdv'')"
  by (simp add: getline_def ifstream_open_def demo_file_def)

lemma demo_cols: "count_cols ''kmer mean stdv'' 0 True 0 = Some 3"
  by (simp add: count_cols.simps)

lemma demo_first_row:
  "read_row demo_env (7 \<le> (3 :: 8 word)) 3
     (\<lparr>buf = ''A 90 1\<newline>N 70 3\<newline>C 95 2\<newline>'', eofbit = False, failbit = False\<rparr>,
      demo_locals\<lparr>kmer_str := []\<rparr>)
   = (model_in demo_L0, row demo_L0, Fin (- 1))"
  by (simp add: stream_defs demo_defs)

lemma demo_init: "init_tbl demo_env demo_this (Fin (- 1)) = demo_tbl0"
proof -
  have u: "unat (4 :: 16 word) = 4" by simp
  have r: "replicate (4 + 1) x = [x, x, x, x, x]" "replicate 4 y = [y, y, y, y]" for x y :: 'a
    by (simp_all add: numeral_eq_Suc)
  have l: "[x, x, x, x, y][4 := z] = [x, x, x, x, z]" for x y z :: 'a
    by (simp add: numeral_eq_Suc)
  show ?thesis
    unfolding init_tbl_def Let_def demo_env_def env.simps u r l
    by (simp add: demo_defs)
qed

lemma read_loop_step:
  assumes "read_next E has_lambda num_cols (store_row E complement L) = L2"
  shows "read_loop E complement has_lambda num_cols L
           = (if eofbit (model_in L2) then Some L2
              else read_loop E complement has_lambda num_cols L2)"
  by (subst read_loop.simps) (simp add: assms)

lemma demo_step1: "read_next demo_env False 3 (store_row demo_env False demo_L0) = demo_L1"
  by (simp add: read_next_def store_row_def row_kmer_def demo_str_to_kmer_def stream_defs
        demo_defs fpow2_def op_defs)

lemma demo_step2: "read_next demo_env False 3 (store_row demo_env False demo_L1) = demo_L2"
  by (simp add: read_next_def store_row_def row_kmer_def demo_str_to_kmer_def stream_defs
        demo_defs fpow2_def op_defs)

lemma demo_step3: "read_next demo_env False 3 (store_row demo_env False demo_L2) = demo_final"
  by (simp add: read_next_def store_row_def row_kmer_def demo_str_to_kmer_def stream_defs
        demo_defs fpow2_def op_defs)

lemma demo_read_loop: "read_loop demo_env False False 3 demo_L0 = Some demo_final"
proof -
  have "read_loop demo_env False False 3 demo_L2 = Some demo_final"
    using read_loop_step [OF demo_step3] by (simp add: demo_final_def)
  then have "read_loop demo_env False False 3 demo_L1 = Some demo_final"
    using read_loop_step [OF demo_step2] by (simp add: demo_L2_def)
  then show ?thesis
    using read_loop_step [OF demo_step1] by (simp add: demo_L1_def)
qed

lemma ctor_loop_eval:
  assumes "getline (ifstream_open file) [] = (s1, header)"
    and "count_cols header 0 True 0 = Some nc"
    and "read_row E (7 \<le> nc) nc (s1, locals0\<lparr>kmer_str := []\<rparr>) = (s2, r, la)"
  shows "ctor_loop E this0 locals0 file complement
           = read_loop E complement (7 \<le> nc) nc
               \<lparr>model_in = s2, row = r, tbl = init_tbl E this0 la, cerr = [], stored = []\<rparr>"
  using assms by (simp add: ctor_loop_def)

lemma demo_ctor_loop:
  "ctor_loop demo_env demo_this demo_locals (Some demo_file) False = Some demo_final"
proof -
  have "\<lparr>model_in = model_in demo_L0, row = row demo_L0, tbl = demo_tbl0, cerr = [],
         stored = []\<rparr> = demo_L0"
    by (simp add: demo_L0_def)
  then show ?thesis
    using ctor_loop_eval [OF demo_header demo_cols demo_first_row,
        of demo_this False] demo_read_loop
    by (simp add: demo_init)
qed

lemma sentry_failed: "failbit s \<Longrightarrow> sentry s = (s, False)"
  by (simp add: sentry_def)

lemma get_string_failed: "failbit s \<Longrightarrow> get_string s cur = (s, cur)"
  by (simp add: get_string_def sentry_failed)

lemma get_float_failed: "failbit s \<Longrightarrow> get_float ng s cur = (s, cur)"
  by (simp add: get_float_def sentry_failed)

lemma read_row_failed:
  "failbit s \<Longrightarrow> fst (read_row E has_lambda num_cols (s, r)) = s"
  by (simp add: read_row_def get_string_failed get_float_failed Let_def)

lemma read_next_failed:
  "failbit (model_in L) \<Longrightarrow> model_in (read_next E has_lambda num_cols L) = model_in L"
  using read_row_failed [of "model_in L" E has_lambda num_cols "row L"]
  by (auto simp: read_next_def split: prod.splits)

lemma store_row_model_in: "model_in (store_row E complement L) = model_in L"
  by (simp add: store_row_def Let_def)

lemma read_loop_Some_not_stuck:
  assumes "read_loop E complement has_lambda num_cols L = Some L'"
  shows "\<not> (failbit (model_in L) \<and> \<not> eofbit (model_in L))"
proof -
  let ?P = "\<lambda>(E :: env) (c :: bool) (h :: bool) (n :: 8 word) (X :: loader) (Y :: loader).
              \<not> (failbit (model_in X) \<and> \<not> eofbit (model_in X))"
  have step: "?P E c h n X Y"
    if ih: "\<And>E c h n X Y. f E c h n X = Some Y \<Longrightarrow> ?P E c h n X Y"
      and body: "(if eofbit (model_in (read_next E h n (store_row E c X)))
                  then Some (read_next E h n (store_row E c X))
                  else f E c h n (read_next E h n (store_row E c X))) = Some Y"
    for f E c h n X Y
  proof
    let ?X2 = "read_next E h n (store_row E c X)"
    assume stuck: "failbit (model_in X) \<and> \<not> eofbit (model_in X)"
    then have same: "model_in ?X2 = model_in X"
      by (simp add: read_next_failed store_row_model_in)
    with stuck body have "f E c h n ?X2 = Some Y"
      by simp
    from ih [OF this] same stuck show False
      by simp
  qed
  show ?thesis
    by (rule read_loop.raw_induct [where P = ?P, OF step assms])
qed

lemma read_loop_stuck:
  assumes "failbit (model_in L)" and "\<not> eofbit (model_in L)"
  shows "read_loop E complement has_lambda num_cols L = None"
proof (cases "read_loop E complement has_lambda num_cols L")
  case None
  then show ?thesis .
next
  case (Some L')
  from read_loop_Some_not_stuck [OF this] assms show ?thesis
    by simp
qed

lemma getline_unopened:
  "getline (ifstream_open None) [] = (\<lparr>buf = [], eofbit = False, failbit = True\<rparr>, [])"
  by (simp add: getline_def ifstream_open_def)

lemma count_cols_empty: "count_cols [] 0 True 0 = Some 0"
  by (simp add: count_cols.simps)

lemma ctor_loop_unopened: "ctor_loop E this0 locals0 None complement = None"
proof -
  let ?s = "\<lparr>buf = [], eofbit = False, failbit = True\<rparr>"
  obtain s2 r la where rr:
    "read_row E (7 \<le> (0 :: 8 word)) 0 (?s, locals0\<lparr>kmer_str := []\<rparr>) = (s2, r, la)"
    by (cases "read_row E (7 \<le> (0 :: 8 word)) 0 (?s, locals0\<lparr>kmer_str := []\<rparr>)") auto
  have "s2 = ?s"
    using read_row_failed [of ?s E "7 \<le> (0 :: 8 word)" 0 "locals0\<lparr>kmer_str := []\<rparr>"] rr
    by simp
  then show ?thesis
    unfolding ctor_loop_eval [OF getline_unopened count_cols_empty rr]
    by (intro read_loop_stuck) simp_all
qed

text \<open>
  C1. The claim is that construction from a file that cannot be opened returns, with
  \<open>loaded\<close> false. The constructor never tests the stream: every read fails without
  setting \<open>eofbit\<close>, so the loop \<open>do ... while (!model_in.eof())\<close> does not end, and
  construction does not return.
\<close>

theorem ctor_unopenable_never_returns:
  "PoreModel_ctor E this0 locals0 None complement = None"
  by (simp add: PoreModel_ctor_def ctor_loop_unopened)

lemma read_loop_invariant:
  assumes "read_loop E complement has_lambda num_cols L = Some L'"
    and "I L"
    and "\<And>X. I X \<Longrightarrow> I (read_next E has_lambda num_cols (store_row E complement X))"
  shows "I L'"
proof -
  let ?P = "\<lambda>E' c h n X Y.
              (\<forall>Z. I Z \<longrightarrow> I (read_next E' h n (store_row E' c Z))) \<longrightarrow> I X \<longrightarrow> I Y"
  have step: "?P E' c h n X Y"
    if ih: "\<And>E' c h n X Y. f E' c h n X = Some Y \<Longrightarrow> ?P E' c h n X Y"
      and body: "(if eofbit (model_in (read_next E' h n (store_row E' c X)))
                  then Some (read_next E' h n (store_row E' c X))
                  else f E' c h n (read_next E' h n (store_row E' c X))) = Some Y"
    for f E' c h n X Y
  proof (cases "eofbit (model_in (read_next E' h n (store_row E' c X)))")
    case True
    with body show ?thesis by auto
  next
    case False
    with body have "f E' c h n (read_next E' h n (store_row E' c X)) = Some Y"
      by simp
    from ih [OF this] show ?thesis by blast
  qed
  have "?P E complement has_lambda num_cols L L'"
    by (rule read_loop.raw_induct [where P = ?P, OF step assms(1)])
  with assms(2,3) show ?thesis by blast
qed

lemma store_row_invalid:
  assumes "\<not> (0 \<le> uint (row_kmer E complement L)
              \<and> uint (row_kmer E complement L) < uint (kmer_count_fld (tbl L)))"
  shows "store_row E complement L = L\<lparr>cerr := cerr L @ [row_kmer E complement L]\<rparr>"
  using assms by (simp add: store_row_def Let_def)

lemma store_row_valid:
  assumes "uint (row_kmer E complement L) < uint (kmer_count_fld (tbl L))"
  shows "lv_means (tbl (store_row E complement L))
           = (lv_means (tbl L))[unat (row_kmer E complement L) := lv_mean (row L)]"
    and "model_mean (tbl (store_row E complement L))
           = addf E (model_mean (tbl L)) (lv_mean (row L))"
    and "stored (store_row E complement L)
           = stored L @ [(row_kmer E complement L, lv_mean (row L))]"
    and "cerr (store_row E complement L) = cerr L"
  using assms by (simp_all add: store_row_def Let_def)

lemma step_scalars:
  "k_fld (tbl (read_next E h n (store_row E c X))) = k_fld (tbl X)"
  "kmer_count_fld (tbl (read_next E h n (store_row E c X))) = kmer_count_fld (tbl X)"
  "loaded (tbl (read_next E h n (store_row E c X))) = loaded (tbl X)"
  by (simp_all add: read_next_def store_row_def Let_def split: prod.splits)

lemma step_running_sum:
  assumes "model_mean (tbl X) = foldl (addf E) (Fin 0) (map snd (stored X))"
  shows "model_mean (tbl (read_next E h n (store_row E c X)))
           = foldl (addf E) (Fin 0) (map snd (stored (read_next E h n (store_row E c X))))"
  using assms by (simp add: read_next_def store_row_def Let_def split: prod.splits)

lemma ctor_loop_SomeD:
  assumes "ctor_loop E this0 locals0 file complement = Some L"
  shows "\<exists>nc s2 r la.
           read_loop E complement (7 \<le> nc) nc
             \<lparr>model_in = s2, row = r, tbl = init_tbl E this0 la, cerr = [], stored = []\<rparr>
           = Some L"
  using assms by (auto simp: ctor_loop_def split: prod.splits option.splits)

lemma ctor_loop_scalars:
  assumes "ctor_loop E this0 locals0 file complement = Some L"
  shows "k_fld (tbl L) = k_fld this0" and "kmer_count_fld (tbl L) = kmer_count E"
    and "model_mean (tbl L) = foldl (addf E) (Fin 0) (map snd (stored L))"
proof -
  from ctor_loop_SomeD [OF assms] obtain nc s2 r la where
    rl: "read_loop E complement (7 \<le> nc) nc
           \<lparr>model_in = s2, row = r, tbl = init_tbl E this0 la, cerr = [], stored = []\<rparr>
         = Some L"
    by blast
  show "k_fld (tbl L) = k_fld this0"
    by (rule read_loop_invariant [OF rl, where I = "\<lambda>X. k_fld (tbl X) = k_fld this0"])
       (simp_all add: init_tbl_def Let_def step_scalars)
  show "kmer_count_fld (tbl L) = kmer_count E"
    by (rule read_loop_invariant [OF rl, where I = "\<lambda>X. kmer_count_fld (tbl X) = kmer_count E"])
       (simp_all add: init_tbl_def Let_def step_scalars)
  show "model_mean (tbl L) = foldl (addf E) (Fin 0) (map snd (stored L))"
    by (rule read_loop_invariant [OF rl,
          where I = "\<lambda>X. model_mean (tbl X) = foldl (addf E) (Fin 0) (map snd (stored X))"])
       (simp_all add: init_tbl_def Let_def step_running_sum)
qed

lemma finish_fields:
  "k_fld (finish A m) = k_fld m" "loaded (finish A m) = True"
  "lv_means (finish A m) = lv_means m"
  "model_mean (finish A m) = divf A (model_mean m) (Fin (real (unat (kmer_count_fld m))))"
  "model_stdv (finish A m)
     = to_float A (sqrtd A (divf A
         (foldl (\<lambda>acc kmer. to_float A (addd A acc (powd A (subf A (lv_means (finish A m) ! kmer)
                                                                    (model_mean (finish A m))))))
                (Fin 0) [0 ..< unat (kmer_count_fld m)])
         (Fin (real (unat (kmer_count_fld m))))))"
  by (simp_all add: finish_def Let_def)

lemma ctor_Some_loaded:
  assumes "PoreModel_ctor E this0 locals0 file complement = Some (m, d)"
  shows "loaded m" and "k_fld m = k_fld this0"
  using assms
  by (auto simp: PoreModel_ctor_def finish_fields ctor_loop_scalars split: option.splits)

section \<open>More on the constructor\<close>

text \<open>
  The loop ends as soon as a read sets \<open>eofbit\<close>: if that happens within \<open>k + 1\<close>
  rounds of the body, the loop returns. The header loop ends on a header of fewer than 256
  characters.
\<close>

lemma read_loop_returns:
  assumes "eofbit (model_in (((\<lambda>X. read_next E h n (store_row E c X)) ^^ Suc k) L))"
  shows "\<exists>L'. read_loop E c h n L = Some L'"
proof -
  define F where "F = (\<lambda>X. read_next E h n (store_row E c X))"
  have unfold: "read_loop E c h n X
                  = (if eofbit (model_in (F X)) then Some (F X) else read_loop E c h n (F X))"
    for X
    unfolding F_def by (rule read_loop_step) simp
  have "eofbit (model_in ((F ^^ Suc k) X)) \<Longrightarrow> \<exists>L'. read_loop E c h n X = Some L'" for X
  proof (induction k arbitrary: X)
    case 0
    then show ?case
      by (subst unfold) simp
  next
    case (Suc k)
    have "(F ^^ Suc (Suc k)) X = (F ^^ Suc k) (F X)"
      by (simp only: funpow_Suc_right o_apply)
    with Suc.prems have "eofbit (model_in ((F ^^ Suc k) (F X)))"
      by simp
    from Suc.IH [OF this] show ?case
      by (subst unfold) simp
  qed
  with assms show ?thesis
    by (simp add: F_def)
qed

lemma count_cols_returns:
  assumes "length header < 256"
  shows "\<exists>n. count_cols header i prev_ws num_cols = Some n"
  using assms
proof (induction "length header - unat i" arbitrary: i prev_ws num_cols)
  case 0
  then show ?case
    by (subst count_cols.simps) simp
next
  case (Suc d)
  then have lt: "unat i < length header"
    by simp
  with Suc.prems have "unat i + 1 < 256"
    by simp
  then have "unat (i + 1) = unat i + 1"
    by (simp add: unat_word_ariths)
  with Suc.hyps(2) have d: "d = length header - unat (i + 1)"
    by simp
  show ?case
    using Suc.hyps(1) [OF d Suc.prems] lt
    by (subst count_cols.simps) simp
qed

text \<open>
  The row that the last read leaves in the local variables is not processed: the loop
  returns the state as that read left it. In a file that does not end in white space the
  last read is the read of the last row, which is therefore dropped.
\<close>

lemma read_loop_last_read:
  assumes "eofbit (model_in (read_next E h n (store_row E c L)))"
  shows "read_loop E c h n L = Some (read_next E h n (store_row E c L))"
    and "lv_means (tbl (read_next E h n (store_row E c L))) = lv_means (tbl (store_row E c L))"
    and "stored (read_next E h n (store_row E c L)) = stored (store_row E c L)"
    and "cerr (read_next E h n (store_row E c L)) = cerr (store_row E c L)"
  using assms
  by (subst read_loop.simps) (simp_all add: read_next_def split: prod.splits)

text \<open>
  The shape of a constructed table: the three vectors have \<open>kmer_count + 1\<close> entries, and
  the global deviation, when it is finite, is not negative, for roundings that keep the
  order and the sign.
\<close>

lemma sqrt_rounded_nonneg:
  assumes "monotone_rounding (rf A)" and "monotone_rounding (rd A)"
    and "to_float A (sqrtd A x) = Fin g"
  shows "0 \<le> g"
proof -
  have "fsqrt x = NaN \<or> fle (Fin 0) (fsqrt x)"
    by (cases x) auto
  then show ?thesis
  proof
    assume "fsqrt x = NaN"
    with assms(3) show ?thesis
      by (simp add: op_defs)
  next
    assume "fle (Fin 0) (fsqrt x)"
    from round_to_mono [OF assms(1) round_to_mono [OF assms(2) this]]
    have "fle (Fin 0) (to_float A (sqrtd A x))"
      by (simp add: op_defs monotone_rounding_zero [OF assms(1)]
            monotone_rounding_zero [OF assms(2)])
    with assms(3) show ?thesis
      by simp
  qed
qed

lemma init_tbl_lengths:
  "length (lv_means (init_tbl E this0 la)) = unat (kmer_count E) + 1"
  "length (lv_vars_x2 (init_tbl E this0 la)) = unat (kmer_count E) + 1"
  "length (lognorm_denoms (init_tbl E this0 la)) = unat (kmer_count E) + 1"
  "kmer_count_fld (init_tbl E this0 la) = kmer_count E"
proof -
  define xs where "xs = (replicate (unat (kmer_count E) + 1) (Fin 0))[unat (kmer_count E) := Fin (- 1)]"
  have l: "length xs = unat (kmer_count E) + 1"
    unfolding xs_def by (simp only: length_list_update length_replicate)
  have "init_tbl E this0 la
          = this0\<lparr>kmer_count_fld := kmer_count E, lambda_fld := la, lv_means := xs,
                   lv_vars_x2 := xs, lognorm_denoms := xs, model_mean := Fin 0,
                   rev_comp_ids := replicate (unat (kmer_count E)) 0\<rparr>"
    unfolding init_tbl_def Let_def xs_def ..
  then show "length (lv_means (init_tbl E this0 la)) = unat (kmer_count E) + 1"
    "length (lv_vars_x2 (init_tbl E this0 la)) = unat (kmer_count E) + 1"
    "length (lognorm_denoms (init_tbl E this0 la)) = unat (kmer_count E) + 1"
    "kmer_count_fld (init_tbl E this0 la) = kmer_count E"
    using l by simp_all
qed

lemma step_lengths:
  "length (lv_means (tbl (read_next E h n (store_row E c X)))) = length (lv_means (tbl X))"
  "length (lv_vars_x2 (tbl (read_next E h n (store_row E c X)))) = length (lv_vars_x2 (tbl X))"
  "length (lognorm_denoms (tbl (read_next E h n (store_row E c X))))
     = length (lognorm_denoms (tbl X))"
  by (simp_all add: read_next_def store_row_def Let_def split: prod.splits)

lemma ctor_table_shape:
  assumes "PoreModel_ctor E this0 locals0 file complement = Some (m, d)"
  shows "kmer_count_fld m = kmer_count E"
    and "length (lv_means m) = unat (kmer_count_fld m) + 1"
    and "length (lv_vars_x2 m) = unat (kmer_count_fld m) + 1"
    and "length (lognorm_denoms m) = unat (kmer_count_fld m) + 1"
    and "monotone_rounding (rf E) \<Longrightarrow> monotone_rounding (rd E) \<Longrightarrow> model_stdv m = Fin gs
           \<Longrightarrow> 0 \<le> gs"
proof -
  from assms obtain L where cl: "ctor_loop E this0 locals0 file complement = Some L"
    and m: "m = finish E (tbl L)"
    by (auto simp: PoreModel_ctor_def split: option.splits)
  from ctor_loop_SomeD [OF cl] obtain nc s2 r la where
    rl: "read_loop E complement (7 \<le> nc) nc
           \<lparr>model_in = s2, row = r, tbl = init_tbl E this0 la, cerr = [], stored = []\<rparr>
         = Some L"
    by blast
  have kc: "kmer_count_fld (tbl L) = kmer_count E"
    by (rule ctor_loop_scalars(2) [OF cl])
  have f: "kmer_count_fld (finish E x) = kmer_count_fld x"
    "lv_vars_x2 (finish E x) = lv_vars_x2 x"
    "lognorm_denoms (finish E x) = lognorm_denoms x" for x
    by (simp_all add: finish_def Let_def)
  show "kmer_count_fld m = kmer_count E"
    by (simp add: m f kc)
  have "length (lv_means (tbl L)) = unat (kmer_count E) + 1"
    by (rule read_loop_invariant [OF rl,
          where I = "\<lambda>X. length (lv_means (tbl X)) = unat (kmer_count E) + 1"])
       (simp_all add: init_tbl_lengths step_lengths)
  then show "length (lv_means m) = unat (kmer_count_fld m) + 1"
    by (simp add: m f kc finish_fields)
  have "length (lv_vars_x2 (tbl L)) = unat (kmer_count E) + 1"
    by (rule read_loop_invariant [OF rl,
          where I = "\<lambda>X. length (lv_vars_x2 (tbl X)) = unat (kmer_count E) + 1"])
       (simp_all add: init_tbl_lengths step_lengths)
  then show "length (lv_vars_x2 m) = unat (kmer_count_fld m) + 1"
    by (simp add: m f kc)
  have "length (lognorm_denoms (tbl L)) = unat (kmer_count E) + 1"
    by (rule read_loop_invariant [OF rl,
          where I = "\<lambda>X. length (lognorm_denoms (tbl X)) = unat (kmer_count E) + 1"])
       (simp_all add: init_tbl_lengths step_lengths)
  then show "length (lognorm_denoms m) = unat (kmer_count_fld m) + 1"
    by (simp add: m f kc)
  show "0 \<le> gs"
    if "monotone_rounding (rf E)" and "monotone_rounding (rd E)" and "model_stdv m = Fin gs"
    using that(3) sqrt_rounded_nonneg [OF that(1,2), of _ gs]
    by (simp add: m finish_def Let_def)
qed

text \<open>The default constructor is the only one that leaves \<open>loaded\<close> false.\<close>

lemma default_ctor_not_loaded:
  "is_loaded (PoreModel_default this0) = False" "kmer_len (PoreModel_default this0) = 0"
  by (simp_all add: is_loaded_def kmer_len_def PoreModel_default_def)

text \<open>
  When no operation rounds, no k-mer is stored twice and the stored values are finite, the
  running sum is the
  sum of the \<open>kmer_count\<close> entries of the table, the entries that no row filled counting
  as zero: the global mean is the arithmetic mean of those entries, and the global
  deviation is their population standard deviation.
\<close>

lemma sum_list_update_real:
  fixes xs :: "real list"
  shows "k < length xs \<Longrightarrow> sum_list (xs[k := x]) = sum_list xs - xs ! k + x"
proof (induction xs arbitrary: k)
  case Nil
  then show ?case by simp
next
  case (Cons a xs)
  then show ?case
    by (cases k) simp_all
qed

lemma foldl_index_take:
  "n \<le> length xs \<Longrightarrow> foldl (\<lambda>acc k. g acc (xs ! k)) a [0 ..< n] = foldl g a (take n xs)"
proof (induction n)
  case 0
  then show ?case by simp
next
  case (Suc n)
  then show ?case
    by (simp add: take_Suc_conv_app_nth)
qed

lemma step_replay:
  assumes "kmer_count_fld (tbl X) = kc"
    and "lv_means (tbl X) = foldl (\<lambda>ys kv. ys[unat (fst kv) := snd kv]) xs0 (stored X)"
    and "\<forall>kv \<in> set (stored X). unat (fst kv) < unat kc"
  shows "kmer_count_fld (tbl (read_next E h n (store_row E c X))) = kc"
    and "lv_means (tbl (read_next E h n (store_row E c X)))
           = foldl (\<lambda>ys kv. ys[unat (fst kv) := snd kv]) xs0
                   (stored (read_next E h n (store_row E c X)))"
    and "\<forall>kv \<in> set (stored (read_next E h n (store_row E c X))). unat (fst kv) < unat kc"
  using assms
  by (auto simp: read_next_def store_row_def Let_def word_less_nat_alt [symmetric] word_less_def
           split: prod.splits)

lemma ctor_loop_replay:
  assumes "ctor_loop E this0 locals0 file complement = Some L"
  shows "lv_means (tbl L)
           = foldl (\<lambda>ys kv. ys[unat (fst kv) := snd kv])
                   ((replicate (unat (kmer_count E) + 1) (Fin 0))[unat (kmer_count E) := Fin (- 1)])
                   (stored L)"
    and "\<forall>kv \<in> set (stored L). unat (fst kv) < unat (kmer_count E)"
proof -
  let ?xs0 = "(replicate (unat (kmer_count E) + 1) (Fin 0))[unat (kmer_count E) := Fin (- 1)]"
  let ?I = "\<lambda>X. kmer_count_fld (tbl X) = kmer_count E
                \<and> lv_means (tbl X) = foldl (\<lambda>ys kv. ys[unat (fst kv) := snd kv]) ?xs0 (stored X)
                \<and> (\<forall>kv \<in> set (stored X). unat (fst kv) < unat (kmer_count E))"
  from ctor_loop_SomeD [OF assms] obtain nc s2 r la where
    rl: "read_loop E complement (7 \<le> nc) nc
           \<lparr>model_in = s2, row = r, tbl = init_tbl E this0 la, cerr = [], stored = []\<rparr>
         = Some L"
    by blast
  have "?I L"
  proof (rule read_loop_invariant [OF rl, where I = ?I])
    show "?I \<lparr>model_in = s2, row = r, tbl = init_tbl E this0 la, cerr = [], stored = []\<rparr>"
      by (simp add: init_tbl_def Let_def)
  next
    fix X :: loader
    assume "?I X"
    then show "?I (read_next E (7 \<le> nc) nc (store_row E complement X))"
      using step_replay [of X "kmer_count E" ?xs0 E "7 \<le> nc" nc complement] by blast
  qed
  then show "lv_means (tbl L) = foldl (\<lambda>ys kv. ys[unat (fst kv) := snd kv]) ?xs0 (stored L)"
    and "\<forall>kv \<in> set (stored L). unat (fst kv) < unat (kmer_count E)"
    by simp_all
qed

lemma replay_distinct_sum:
  fixes kvs :: "(16 word \<times> real) list"
  assumes "distinct (map fst kvs)" and "\<forall>kv \<in> set kvs. unat (fst kv) < n"
  shows "\<exists>ms. length ms = n
            \<and> take n (foldl (\<lambda>ys kv. ys[unat (fst kv) := snd kv])
                              ((replicate (n + 1) (Fin 0))[n := Fin (- 1)])
                              (map (\<lambda>kv. (fst kv, Fin (snd kv))) kvs)) = map Fin ms
            \<and> sum_list ms = sum_list (map snd kvs)
            \<and> (\<forall>k. unat k < n \<and> k \<notin> fst ` set kvs \<longrightarrow> ms ! unat k = 0)"
  using assms
proof (induction kvs rule: rev_induct)
  case Nil
  let ?z = "replicate n (0 :: real)"
  have t: "take n ((replicate (n + 1) (Fin 0))[n := Fin (- 1)]) = map Fin ?z"
    by (simp only: take_update_cancel [OF le_refl] take_replicate map_replicate) simp
  have "take n (foldl (\<lambda>ys kv. ys[unat (fst kv) := snd kv])
                      ((replicate (n + 1) (Fin 0))[n := Fin (- 1)])
                      (map (\<lambda>kv. (fst kv, Fin (snd kv))) ([] :: (16 word \<times> real) list)))
          = map Fin ?z"
    by (simp only: list.map foldl_Nil t)
  moreover have "length ?z = n" "sum_list ?z = sum_list (map snd ([] :: (16 word \<times> real) list))"
    by (simp_all add: sum_list_replicate)
  moreover have "\<forall>k :: 16 word. unat k < n \<and> k \<notin> fst ` set ([] :: (16 word \<times> real) list)
                   \<longrightarrow> ?z ! unat k = 0"
    by simp
  ultimately show ?case by blast
next
  case (snoc kv kvs)
  obtain k v where kv: "kv = (k, v)"
    by (cases kv)
  from snoc.prems have d: "distinct (map fst kvs)" and new: "k \<notin> fst ` set kvs"
    and b: "\<forall>kv \<in> set kvs. unat (fst kv) < n" and kn: "unat k < n"
    by (auto simp: kv)
  from snoc.IH [OF d b] obtain ms where
    len: "length ms = n"
    and tk: "take n (foldl (\<lambda>ys kv. ys[unat (fst kv) := snd kv])
                           ((replicate (n + 1) (Fin 0))[n := Fin (- 1)])
                           (map (\<lambda>kv. (fst kv, Fin (snd kv))) kvs)) = map Fin ms"
    and sm: "sum_list ms = sum_list (map snd kvs)"
    and z: "\<forall>k. unat k < n \<and> k \<notin> fst ` set kvs \<longrightarrow> ms ! unat k = 0"
    by blast
  let ?ms = "ms[unat k := v]"
  have "length ?ms = n"
    by (simp add: len)
  moreover have "take n (foldl (\<lambda>ys kv. ys[unat (fst kv) := snd kv])
                           ((replicate (n + 1) (Fin 0))[n := Fin (- 1)])
                           (map (\<lambda>kv. (fst kv, Fin (snd kv))) (kvs @ [kv]))) = map Fin ?ms"
    using tk by (simp add: kv take_update_swap map_update)
  moreover have "sum_list ?ms = sum_list (map snd (kvs @ [kv]))"
    using z new kn by (simp add: kv sum_list_update_real len sm)
  moreover have "\<forall>k'. unat k' < n \<and> k' \<notin> fst ` set (kvs @ [kv]) \<longrightarrow> ?ms ! unat k' = 0"
    using z by (auto simp: kv len nth_list_update word_unat_eq_iff)
  ultimately show ?case by blast
qed

lemma ctor_stats_no_duplicates:
  assumes cl: "ctor_loop E this0 locals0 file complement = Some L"
    and st: "stored L = map (\<lambda>kv. (fst kv, Fin (snd kv))) kvs"
    and di: "distinct (map fst kvs)"
    and nz: "kmer_count E \<noteq> 0"
    and ex: "rf E = Fin" "rd E = Fin"
  shows "\<exists>m ms. PoreModel_ctor E this0 locals0 file complement = Some (m, cerr L)
           \<and> length ms = unat (kmer_count E)
           \<and> take (unat (kmer_count E)) (lv_means m) = map Fin ms
           \<and> model_mean m = Fin (arith_mean ms)
           \<and> model_stdv m = Fin (pop_stdev ms)"
proof -
  let ?n = "unat (kmer_count E)"
  let ?m = "finish E (tbl L)"
  note eo = exact_ops [OF ex]
  have ea: "addf E = fadd"
    by (intro ext) (simp add: eo)
  have npos: "0 < ?n"
    using nz by (simp add: unat_gt_0)
  have nzr: "(unsigned (kmer_count E) :: real) \<noteq> 0"
    using nz by (simp add: unsigned_eq_0_iff)
  have b: "\<forall>kv \<in> set kvs. unat (fst kv) < ?n"
    using ctor_loop_replay(2) [OF cl] by (auto simp: st)
  from replay_distinct_sum [OF di b] obtain ms where
    len: "length ms = ?n"
    and tk: "take ?n (lv_means (tbl L)) = map Fin ms"
    and sm: "sum_list ms = sum_list (map snd kvs)"
    unfolding ctor_loop_replay(1) [OF cl] st by blast
  have ctor: "PoreModel_ctor E this0 locals0 file complement = Some (?m, cerr L)"
    using cl by (simp add: PoreModel_ctor_def)
  have kc: "kmer_count_fld (tbl L) = kmer_count E"
    by (rule ctor_loop_scalars(2) [OF cl])
  have "map snd (stored L) = map Fin (map snd kvs)"
    by (simp add: st comp_def)
  then have run: "model_mean (tbl L) = Fin (sum_list (map snd kvs))"
    using foldl_fadd_Fin [of 0 "map snd kvs"] ctor_loop_scalars(3) [OF cl] by (simp add: ea)
  have mean: "model_mean ?m = Fin (arith_mean ms)"
    using npos nzr by (simp add: finish_fields(4) eo kc run arith_mean_def len sm)
  have long: "?n \<le> length (lv_means (tbl L))"
    using arg_cong [OF tk, of length] len by simp
  have "foldl (\<lambda>acc kmer. fadd acc (fpow2 (fsub (lv_means (tbl L) ! kmer) (Fin (arith_mean ms)))))
              (Fin 0) [0 ..< ?n]
        = Fin (sum_list (map (\<lambda>x. (x - arith_mean ms)\<^sup>2) ms))"
    using foldl_index_take [OF long,
            of "\<lambda>acc e. fadd acc (fpow2 (fsub e (Fin (arith_mean ms))))" "Fin 0"]
      foldl_sq_Fin [of "arith_mean ms" 0 ms]
    by (simp add: tk)
  moreover have "(0 :: real) \<le> unsigned (kmer_count E)"
    by (metis of_nat_unat of_nat_0_le_iff)
  then have "0 \<le> sum_list (map (\<lambda>x. (x - arith_mean ms)\<^sup>2) ms)
                       / (unsigned (kmer_count E) :: real)"
    by (intro divide_nonneg_nonneg sum_list_nonneg) auto
  ultimately have "model_stdv ?m = Fin (pop_stdev ms)"
    using finish_fields(5) [of E "tbl L"] mean nzr
    by (simp add: eo kc finish_fields(3) pop_stdev_def len)
  with ctor len tk mean show ?thesis
    by (auto simp: finish_fields(3))
qed

section \<open>The claims on the loader\<close>

text \<open>
  C4. When the read loop has ended, the constructor returns a table whose global mean is
  the sum of the level means that the loop stored, divided by \<open>kmer_count\<close>, and whose
  global deviation is the square root of the sum over every identifier below
  \<open>kmer_count\<close> of \<open>(means[id] - global_mean)^2\<close>, divided by \<open>kmer_count\<close>, each
  operation rounded as the source rounds it. When no operation rounds, no k-mer was stored
  twice and the stored values are finite, these are the arithmetic mean and the population
  standard deviation of the \<open>kmer_count\<close> entries of the table, the entries that no row
  filled included.
\<close>

theorem ctor_global_mean_stdev:
  assumes "ctor_loop E this0 locals0 file complement = Some L"
  shows "\<exists>m. PoreModel_ctor E this0 locals0 file complement = Some (m, cerr L)
           \<and> model_mean m = divf E (foldl (addf E) (Fin 0) (map snd (stored L)))
                                  (Fin (real (unat (kmer_count E))))
           \<and> model_stdv m
               = to_float E (sqrtd E (divf E
                   (foldl (\<lambda>acc kmer. to_float E (addd E acc (powd E (subf E (lv_means m ! kmer)
                                                                              (model_mean m)))))
                          (Fin 0) [0 ..< unat (kmer_count E)])
                   (Fin (real (unat (kmer_count E))))))
           \<and> (\<forall>kvs. rf E = Fin \<and> rd E = Fin
                      \<and> stored L = map (\<lambda>kv. (fst kv, Fin (snd kv))) kvs
                      \<and> distinct (map fst kvs) \<and> kmer_count E \<noteq> 0 \<longrightarrow>
                  (\<exists>ms. length ms = unat (kmer_count E)
                      \<and> take (unat (kmer_count E)) (lv_means m) = map Fin ms
                      \<and> model_mean m = Fin (arith_mean ms)
                      \<and> model_stdv m = Fin (pop_stdev ms)))"
proof -
  let ?m = "finish E (tbl L)"
  have ctor: "PoreModel_ctor E this0 locals0 file complement = Some (?m, cerr L)"
    using assms by (simp add: PoreModel_ctor_def)
  have "model_mean ?m
          = divf E (foldl (addf E) (Fin 0) (map snd (stored L)))
                   (Fin (real (unat (kmer_count E))))"
    by (simp add: finish_fields(4) ctor_loop_scalars [OF assms])
  moreover have "model_stdv ?m
      = to_float E (sqrtd E (divf E
          (foldl (\<lambda>acc kmer. to_float E (addd E acc (powd E (subf E (lv_means ?m ! kmer)
                                                                     (model_mean ?m)))))
                 (Fin 0) [0 ..< unat (kmer_count E)])
          (Fin (real (unat (kmer_count E))))))"
    using finish_fields(5) [of E "tbl L"] by (simp add: ctor_loop_scalars(2) [OF assms])
  moreover have "\<exists>ms. length ms = unat (kmer_count E)
                   \<and> take (unat (kmer_count E)) (lv_means ?m) = map Fin ms
                   \<and> model_mean ?m = Fin (arith_mean ms)
                   \<and> model_stdv ?m = Fin (pop_stdev ms)"
    if "stored L = map (\<lambda>kv. (fst kv, Fin (snd kv))) kvs" and "distinct (map fst kvs)"
      and "kmer_count E \<noteq> 0" and "rf E = Fin" and "rd E = Fin" for kvs
    using ctor_stats_no_duplicates [OF assms that] ctor by auto
  ultimately show ?thesis
    using ctor by blast
qed

lemma demo_ctor:
  "PoreModel_ctor demo_env demo_this demo_locals (Some demo_file) False
     = Some (finish demo_env demo_tbl2, [4])"
  by (simp add: PoreModel_ctor_def demo_ctor_loop demo_final_def)

theorem ctor_global_mean_stdev_witness:
  "ctor_loop demo_env demo_this demo_locals (Some demo_file) False = Some demo_final
   \<and> (\<exists>m. PoreModel_ctor demo_env demo_this demo_locals (Some demo_file) False
               = Some (m, [4])
           \<and> model_mean m = Fin (185 / 4)
           \<and> (\<exists>ms. length ms = 4 \<and> take 4 (lv_means m) = map Fin ms
                  \<and> model_mean m = Fin (arith_mean ms) \<and> model_stdv m = Fin (pop_stdev ms)))"
proof -
  from ctor_global_mean_stdev [OF demo_ctor_loop] obtain m where
    c: "PoreModel_ctor demo_env demo_this demo_locals (Some demo_file) False
          = Some (m, cerr demo_final)"
    and mm: "model_mean m = divf demo_env (foldl (addf demo_env) (Fin 0)
                                             (map snd (stored demo_final)))
                                 (Fin (real (unat (kmer_count demo_env))))"
    and nd: "\<forall>kvs. rf demo_env = Fin \<and> rd demo_env = Fin
                   \<and> stored demo_final = map (\<lambda>kv. (fst kv, Fin (snd kv))) kvs
                   \<and> distinct (map fst kvs) \<and> kmer_count demo_env \<noteq> 0 \<longrightarrow>
               (\<exists>ms. length ms = unat (kmer_count demo_env)
                   \<and> take (unat (kmer_count demo_env)) (lv_means m) = map Fin ms
                   \<and> model_mean m = Fin (arith_mean ms)
                   \<and> model_stdv m = Fin (pop_stdev ms))"
    by blast
  have "stored demo_final = map (\<lambda>kv. (fst kv, Fin (snd kv))) [(0, 90), (1, 95)]"
    "distinct (map fst [(0 :: 16 word, 90 :: real), (1, 95)])" "kmer_count demo_env \<noteq> 0"
    "rf demo_env = Fin" "rd demo_env = Fin"
    by (simp_all add: demo_final_def demo_env_def)
  with nd have "\<exists>ms. length ms = unat (kmer_count demo_env)
                   \<and> take (unat (kmer_count demo_env)) (lv_means m) = map Fin ms
                   \<and> model_mean m = Fin (arith_mean ms)
                   \<and> model_stdv m = Fin (pop_stdev ms)"
    by blast
  moreover have "unat (kmer_count demo_env) = 4"
    by (simp add: demo_env_def)
  moreover have "model_mean m = Fin (185 / 4)"
    using mm by (simp add: demo_final_def demo_env_def op_defs)
  ultimately show ?thesis
    using c demo_ctor_loop by (simp add: demo_final_def)
qed

text \<open>
  A row whose identifier is outside \<open>[0, kmer_count)\<close>, when the loop body meets it, adds
  one message to \<open>std::cerr\<close> and changes nothing else, and the loop goes on with the next
  read as it does after any other row.
\<close>

lemma invalid_kmer_row_skipped:
  assumes "\<not> (0 \<le> uint (row_kmer E complement L)
              \<and> uint (row_kmer E complement L) < uint (kmer_count_fld (tbl L)))"
  shows "store_row E complement L = L\<lparr>cerr := cerr L @ [row_kmer E complement L]\<rparr>
       \<and> read_loop E complement has_lambda num_cols L
           = (if eofbit (model_in (read_next E has_lambda num_cols
                                    (L\<lparr>cerr := cerr L @ [row_kmer E complement L]\<rparr>)))
              then Some (read_next E has_lambda num_cols
                           (L\<lparr>cerr := cerr L @ [row_kmer E complement L]\<rparr>))
              else read_loop E complement has_lambda num_cols
                     (read_next E has_lambda num_cols
                        (L\<lparr>cerr := cerr L @ [row_kmer E complement L]\<rparr>)))"
proof (intro conjI)
  show sk: "store_row E complement L = L\<lparr>cerr := cerr L @ [row_kmer E complement L]\<rparr>"
    by (rule store_row_invalid [OF assms(1)])
  show "read_loop E complement has_lambda num_cols L
           = (if eofbit (model_in (read_next E has_lambda num_cols
                                    (L\<lparr>cerr := cerr L @ [row_kmer E complement L]\<rparr>)))
              then Some (read_next E has_lambda num_cols
                           (L\<lparr>cerr := cerr L @ [row_kmer E complement L]\<rparr>))
              else read_loop E complement has_lambda num_cols
                     (read_next E has_lambda num_cols
                        (L\<lparr>cerr := cerr L @ [row_kmer E complement L]\<rparr>)))"
    by (rule read_loop_step) (simp add: sk)
qed

lemma nonl_header:
  "getline (ifstream_open (Some nonl_file)) []
     = (\<lparr>buf = ''A 90 1\<newline>N 70 3'', eofbit = False, failbit = False\<rparr>, ''kmer mean stdv'')"
  by (simp add: getline_def ifstream_open_def nonl_file_def)

lemma nonl_first_row:
  "read_row demo_env (7 \<le> (3 :: 8 word)) 3
     (\<lparr>buf = ''A 90 1\<newline>N 70 3'', eofbit = False, failbit = False\<rparr>,
      demo_locals\<lparr>kmer_str := []\<rparr>)
   = (model_in nonl_L0, row nonl_L0, Fin (- 1))"
  by (simp add: stream_defs demo_defs nonl_L0_def)

lemma nonl_step: "read_next demo_env False 3 (store_row demo_env False nonl_L0) = nonl_final"
  by (simp add: read_next_def store_row_def row_kmer_def demo_str_to_kmer_def stream_defs
        demo_defs nonl_L0_def nonl_final_def fpow2_def op_defs)

lemma nonl_ctor_loop:
  "ctor_loop demo_env demo_this demo_locals (Some nonl_file) False = Some nonl_final"
proof -
  have "\<lparr>model_in = model_in nonl_L0, row = row nonl_L0, tbl = demo_tbl0, cerr = [],
         stored = []\<rparr> = nonl_L0"
    by (simp add: nonl_L0_def)
  moreover have "read_loop demo_env False False 3 nonl_L0 = Some nonl_final"
    using read_loop_step [OF nonl_step] by (simp add: nonl_final_def)
  ultimately show ?thesis
    using ctor_loop_eval [OF nonl_header demo_cols nonl_first_row, of demo_this False]
    by (simp add: demo_init)
qed

text \<open>
  C2. The claim is that every row of an opened file whose identifier is outside
  \<open>[0, kmer_count)\<close> gets a message on \<open>std::cerr\<close>. The loop tests \<open>eof()\<close> after it has
  read the next row and before it processes it: a last row that no white space follows is
  read to the end of the input and dropped. In \<open>nonl_file\<close> that row is \<open>N 70 3\<close>, whose
  identifier 4 is not below the \<open>kmer_count\<close> of 4: the constructor returns and nothing
  was written to \<open>std::cerr\<close>. With a newline after the same row, in \<open>demo_file\<close>, the
  message is written.
\<close>

theorem invalid_last_row_no_diagnostic:
  "PoreModel_ctor demo_env demo_this demo_locals (Some nonl_file) False
     = Some (finish demo_env demo_tbl1, [])
   \<and> kmer_str (row nonl_final) = ''N''
   \<and> row_kmer demo_env False nonl_final = 4 \<and> kmer_count demo_env = 4
   \<and> PoreModel_ctor demo_env demo_this demo_locals (Some demo_file) False
     = Some (finish demo_env demo_tbl2, [4])"
proof -
  have "PoreModel_ctor demo_env demo_this demo_locals (Some nonl_file) False
          = Some (finish demo_env demo_tbl1, [])"
    by (simp add: PoreModel_ctor_def nonl_ctor_loop nonl_final_def)
  moreover have "row_kmer demo_env False nonl_final = 4" "kmer_str (row nonl_final) = ''N''"
    "kmer_count demo_env = 4"
    by (simp_all add: row_kmer_def demo_env_def demo_str_to_kmer_def nonl_final_def demo_defs)
  ultimately show ?thesis
    using demo_ctor by simp
qed

text \<open>
  C9. The claim is that \<open>kmer_len()\<close> returns the template argument after construction
  from a file. That constructor does not assign \<open>k_\<close>, so \<open>kmer_len()\<close> returns what
  the storage held: here 0, for k-mers of length 1.
\<close>

theorem ctor_leaves_k_unassigned:
  "\<exists>m d. PoreModel_ctor demo_env demo_this demo_locals (Some demo_file) False = Some (m, d)
          \<and> kmer_len m = 0 \<and> KLEN demo_env = 1"
  using ctor_Some_loaded(2) [OF demo_ctor] demo_ctor
  by (simp add: kmer_len_def demo_this_def demo_env_def)

end
